theory Spec2Isabelle
  imports Complex_Main
begin

section \<open>Chain Sentinel: the smart-money finder of \<^verbatim>\<open>scanner.py\<close>\<close>

text \<open>
  The development embeds the three functions \<^verbatim>\<open>find_intersection\<close>,
  \<^verbatim>\<open>calculate_wallet_pnl\<close> and \<^verbatim>\<open>find_smart_money\<close>.
  Addresses and mints are strings, Python dictionaries are association lists in
  insertion order (the code iterates over them, so the order is observable), and
  Python floats are idealised as real numbers.
\<close>

subsection \<open>Python library functions used by the code\<close>

text \<open>
  \<^verbatim>\<open>sorted(xs, key=k, reverse=True)\<close> and \<^verbatim>\<open>xs.sort(key=k, reverse=True)\<close>:
  the list is reversed, sorted by a stable ascending sort, and reversed again, so equal keys
  keep their original order.
\<close>

definition sorted_reverse :: "('a \<Rightarrow> 'k::linorder) \<Rightarrow> 'a list \<Rightarrow> 'a list" where
  "sorted_reverse key xs = rev (sort_key key (rev xs))"

text \<open>
  \<^verbatim>\<open>d[k].append(v)\<close> on a \<^verbatim>\<open>defaultdict(list)\<close>: an existing key keeps
  its position and its list grows at the end, a new key is inserted last with \<^verbatim>\<open>[v]\<close>.
\<close>

fun dict_append :: "('k \<times> 'v list) list \<Rightarrow> 'k \<Rightarrow> 'v \<Rightarrow> ('k \<times> 'v list) list" where
  "dict_append [] k v = [(k, [v])]"
| "dict_append ((k', vs) # d) k v =
     (if k' = k then (k', vs @ [v]) # d else (k', vs) # dict_append d k v)"

text \<open>
  \<^verbatim>\<open>d.get(k, default)\<close> and \<^verbatim>\<open>d[k] = v\<close> on a plain dictionary, and the read-modify-write
  \<^verbatim>\<open>d[k][field] += x\<close> on a \<^verbatim>\<open>defaultdict\<close>, which first inserts the default
  value under a missing key.
\<close>

definition dict_lookup :: "('k \<times> 'v) list \<Rightarrow> 'k \<Rightarrow> 'v \<Rightarrow> 'v" where
  "dict_lookup d k dflt = (case map_of d k of None \<Rightarrow> dflt | Some v \<Rightarrow> v)"

fun dict_store :: "('k \<times> 'v) list \<Rightarrow> 'k \<Rightarrow> 'v \<Rightarrow> ('k \<times> 'v) list" where
  "dict_store [] k v = [(k, v)]"
| "dict_store ((k', v') # d) k v =
     (if k' = k then (k', v) # d else (k', v') # dict_store d k v)"

fun dict_modify :: "('k \<times> 'v) list \<Rightarrow> 'k \<Rightarrow> 'v \<Rightarrow> ('v \<Rightarrow> 'v) \<Rightarrow> ('k \<times> 'v) list" where
  "dict_modify [] k dflt f = [(k, f dflt)]"
| "dict_modify ((k', v) # d) k dflt f =
     (if k' = k then (k', f v) # d else (k', v) # dict_modify d k dflt f)"

text \<open>
  \<^verbatim>\<open>round(x, ndigits)\<close> on the idealised reals: the nearest multiple of
  \<open>10\<^sup>-\<^sup>n\<close>, an exact tie going to the even neighbour.
\<close>

definition py_round :: "real \<Rightarrow> nat \<Rightarrow> real" where
  "py_round x ndigits =
     (let y = x * 10 ^ ndigits; f = \<lfloor>y\<rfloor>; d = y - of_int f
      in (if d < 1 / 2 then of_int f
          else if 1 / 2 < d then of_int (f + 1)
          else if even f then of_int f else of_int (f + 1)) / 10 ^ ndigits)"

subsection \<open>Step 2: \<^verbatim>\<open>find_intersection\<close>\<close>

definition EXCLUDED_PROGRAMS :: "string set" where
  "EXCLUDED_PROGRAMS =
     {''TokenkegQfeZyiNwAJbNbGKPFXCWuBvf9Ss623VQ5DA'',
      ''11111111111111111111111111111111'',
      ''TokenzQdBNbLqP5VEhdkAS6EPFLC1PHnBqCXEpPxuEb'',
      ''ATokenGPvbdGVxr1b2hvZbsiqW5xWH25efTNsLJe1bfE'',
      ''So11111111111111111111111111111111111111112''}"

text \<open>The inner loop \<^verbatim>\<open>for wallet in holders\<close> for one mint.\<close>

fun add_holders :: "string \<Rightarrow> string list \<Rightarrow> (string \<times> string list) list
    \<Rightarrow> (string \<times> string list) list" where
  "add_holders mint [] d = d"
| "add_holders mint (wallet # holders) d =
     (if length wallet < 32 \<or> wallet \<in> EXCLUDED_PROGRAMS
      then add_holders mint holders d
      else add_holders mint holders (dict_append d wallet mint))"

text \<open>The outer loop \<^verbatim>\<open>for mint, holders in zip(mints, holder_lists)\<close>.\<close>

fun collect_holders :: "(string \<times> string list) list \<Rightarrow> (string \<times> string list) list
    \<Rightarrow> (string \<times> string list) list" where
  "collect_holders [] d = d"
| "collect_holders ((mint, holders) # rest) d = collect_holders rest (add_holders mint holders d)"

definition find_intersection :: "string list list \<Rightarrow> string list \<Rightarrow> int
    \<Rightarrow> (string \<times> string list) list" where
  "find_intersection holder_lists mints min_appearances =
     (let wallet_to_mints = collect_holders (zip mints holder_lists) [];
          common = filter (\<lambda>(wallet, held_mints). min_appearances \<le> int (length held_mints))
                     wallet_to_mints
      in sorted_reverse (\<lambda>x. length (snd x)) common)"

text \<open>
  Notions used to state what \<^verbatim>\<open>find_intersection\<close> returns: the order in which
  values are first seen in a list, the lookup of a key in a dictionary of lists, the
  (wallet, mint) pairs that pass the guard of the inner loop, the guard itself, and the
  mints whose holder list contains a wallet.
\<close>

fun first_seen :: "'a list \<Rightarrow> 'a list" where
  "first_seen [] = []"
| "first_seen (x # xs) = x # filter (\<lambda>y. y \<noteq> x) (first_seen xs)"

definition dict_get :: "('k \<times> 'v list) list \<Rightarrow> 'k \<Rightarrow> 'v list" where
  "dict_get d k = (case map_of d k of None \<Rightarrow> [] | Some vs \<Rightarrow> vs)"

definition is_candidate :: "string \<Rightarrow> bool" where
  "is_candidate wallet = (\<not> (length wallet < 32 \<or> wallet \<in> EXCLUDED_PROGRAMS))"

definition kept_pairs :: "(string \<times> string list) list \<Rightarrow> (string \<times> string) list" where
  "kept_pairs zs =
     concat (map (\<lambda>(mint, holders). map (\<lambda>w. (w, mint)) (filter is_candidate holders)) zs)"

definition mints_holding :: "(string \<times> string list) list \<Rightarrow> string \<Rightarrow> string list" where
  "mints_holding zs wallet = map fst (filter (\<lambda>(mint, holders). wallet \<in> set holders) zs)"

subsection \<open>The data provider\<close>

text \<open>
  What the network answers is a parameter of the model. A request can raise (connection
  error, timeout, a body that is not JSON, a JSON value of an unexpected shape); otherwise
  it yields the decoded fields that the code reads, with the defaults of its
  \<^verbatim>\<open>.get\<close> calls filled in.
\<close>

record token_transfer =
  transfer_mint :: string
  fromUserAccount :: string
  toUserAccount :: string
  tokenAmount :: real

record account_change =
  account :: string
  nativeBalanceChange :: real

record tx =
  timestamp :: int
  accountData :: "account_change list"
  tokenTransfers :: "token_transfer list"

text \<open>An element of the transaction list that is not a JSON object, or that has a field
  of an unexpected shape (such as a \<^verbatim>\<open>tokenAmount\<close> that \<^verbatim>\<open>float\<close> rejects), makes
  the loop raise when it reaches it.\<close>

datatype tx_json = MalformedTx | Tx tx

datatype payload = InvalidJson | NotAList | TxList "tx_json list"

datatype activity_reply = ActivityRaised | ActivityReply nat payload

text \<open>The reply to \<^verbatim>\<open>getTokenLargestAccounts\<close>: the \<^verbatim>\<open>address\<close> field of each
  account (empty when missing).\<close>

datatype largest_reply = LargestRaised | LargestReply "string list"

text \<open>The reply to \<^verbatim>\<open>getMultipleAccounts\<close>: per account \<^verbatim>\<open>null\<close>, the parsed
  owner (empty when missing), or a value whose shape makes the loop raise.\<close>

datatype account_json = NullAccount | ParsedAccount string | MalformedAccount

datatype owners_reply = OwnersRaised | OwnersReply "account_json list"

record session =
  getTokenLargestAccounts :: "string \<Rightarrow> largest_reply"
  getMultipleAccounts :: "string list \<Rightarrow> owners_reply"
  transactions :: "string \<Rightarrow> activity_reply"

text \<open>The requests a call issues are returned next to its value, in program order.\<close>

datatype request =
    LargestAccountsRequest string
  | MultipleAccountsRequest "string list"
  | TransactionsRequest string

text \<open>\<^verbatim>\<open>await asyncio.gather(*[f(x) for x in xs])\<close>: the results in the order of
  \<^verbatim>\<open>xs\<close>, and all the requests of the calls.\<close>

definition gather :: "('a \<Rightarrow> 'b \<times> request list) \<Rightarrow> 'a list \<Rightarrow> 'b list \<times> request list" where
  "gather f xs = (map (\<lambda>x. fst (f x)) xs, concat (map (\<lambda>x. snd (f x)) xs))"

subsection \<open>Step 1: \<^verbatim>\<open>get_top_holders\<close> and \<^verbatim>\<open>get_account_owners\<close>\<close>

text \<open>The loop over the accounts; an exception leaves the owners appended so far.\<close>

fun owners_loop :: "account_json list \<Rightarrow> string list \<Rightarrow> string list" where
  "owners_loop [] owners = owners"
| "owners_loop (NullAccount # rest) owners = owners_loop rest owners"
| "owners_loop (ParsedAccount owner # rest) owners =
     (if owner \<noteq> [] then owners_loop rest (owners @ [owner]) else owners_loop rest owners)"
| "owners_loop (MalformedAccount # rest) owners = owners"

definition get_account_owners :: "session \<Rightarrow> string list \<Rightarrow> string list \<times> request list" where
  "get_account_owners s token_accounts =
     (case getMultipleAccounts s token_accounts of
        OwnersRaised \<Rightarrow> []
      | OwnersReply accounts \<Rightarrow> owners_loop accounts [],
      [MultipleAccountsRequest token_accounts])"

definition get_top_holders :: "session \<Rightarrow> string \<Rightarrow> string list \<times> request list" where
  "get_top_holders s mint =
     (case getTokenLargestAccounts s mint of
        LargestRaised \<Rightarrow> ([], [LargestAccountsRequest mint])
      | LargestReply addresses \<Rightarrow>
          (let token_account_addresses = filter (\<lambda>a. a \<noteq> []) addresses
           in if token_account_addresses = [] then ([], [LargestAccountsRequest mint])
              else (let (owners, reqs) = get_account_owners s token_account_addresses
                    in (owners, LargestAccountsRequest mint # reqs))))"

subsection \<open>Step 3: \<^verbatim>\<open>calculate_wallet_pnl\<close>\<close>

datatype trade_type = BUY | SELL

record trade =
  trade_type :: trade_type
  trade_mint :: string
  trade_sol :: real
  trade_amount :: real
  trade_ts :: int

text \<open>The value of \<^verbatim>\<open>token_pnl[mint]\<close>; the default has all four fields zero.\<close>

record ledger =
  buy_sol :: real
  sell_sol :: real
  buy_amount :: real
  sell_amount :: real

definition empty_ledger :: ledger where
  "empty_ledger = \<lparr>buy_sol = 0, sell_sol = 0, buy_amount = 0, sell_amount = 0\<rparr>"

text \<open>The three local variables that the replay loop mutates.\<close>

record replay_state =
  trades :: "trade list"
  token_pnl :: "(string \<times> ledger) list"
  current_holdings :: "(string \<times> real) list"

definition initial_state :: replay_state where
  "initial_state = \<lparr>trades = [], token_pnl = [], current_holdings = []\<rparr>"

text \<open>The loop over \<^verbatim>\<open>accountData\<close>: the last entry of the wallet decides, in SOL.\<close>

definition sol_change_of :: "string \<Rightarrow> account_change list \<Rightarrow> real" where
  "sol_change_of wallet changes =
     fold (\<lambda>change sol_change.
             if account change = wallet then nativeBalanceChange change / 10 ^ 9 else sol_change)
       changes 0"

text \<open>The body of the loop over \<^verbatim>\<open>tokenTransfers\<close>.\<close>

definition process_transfer :: "string \<Rightarrow> real \<Rightarrow> int \<Rightarrow> token_transfer \<Rightarrow> replay_state
    \<Rightarrow> replay_state" where
  "process_transfer wallet sol_change ts transfer st =
     (let mint = transfer_mint transfer;
          from_addr = fromUserAccount transfer;
          to_addr = toUserAccount transfer;
          amount = tokenAmount transfer
      in if mint = [] \<or> amount = 0 then st
         else if to_addr = wallet \<and> sol_change < 0 then
           (let cost_sol = \<bar>sol_change\<bar>
            in \<lparr>trades = trades st @
                   [\<lparr>trade_type = BUY, trade_mint = mint, trade_sol = cost_sol,
                     trade_amount = amount, trade_ts = ts\<rparr>],
                 token_pnl = dict_modify (token_pnl st) mint empty_ledger
                   (\<lambda>l. l\<lparr>buy_sol := buy_sol l + cost_sol, buy_amount := buy_amount l + amount\<rparr>),
                 current_holdings = dict_store (current_holdings st) mint
                   (dict_lookup (current_holdings st) mint 0 + amount)\<rparr>)
         else if from_addr = wallet \<and> 0 < sol_change then
           (let recv_sol = sol_change
            in \<lparr>trades = trades st @
                   [\<lparr>trade_type = SELL, trade_mint = mint, trade_sol = recv_sol,
                     trade_amount = amount, trade_ts = ts\<rparr>],
                 token_pnl = dict_modify (token_pnl st) mint empty_ledger
                   (\<lambda>l. l\<lparr>sell_sol := sell_sol l + recv_sol, sell_amount := sell_amount l + amount\<rparr>),
                 current_holdings = dict_store (current_holdings st) mint
                   (max 0 (dict_lookup (current_holdings st) mint 0 - amount))\<rparr>)
         else st)"

text \<open>The body of the loop over the transactions.\<close>

definition process_tx :: "string \<Rightarrow> tx \<Rightarrow> replay_state \<Rightarrow> replay_state" where
  "process_tx wallet t st =
     fold (process_transfer wallet (sol_change_of wallet (accountData t)) (timestamp t))
       (tokenTransfers t) st"

text \<open>The loop over the transactions; \<open>None\<close> when an element makes it raise.\<close>

fun replay_txs :: "string \<Rightarrow> tx_json list \<Rightarrow> replay_state \<Rightarrow> replay_state option" where
  "replay_txs wallet [] st = Some st"
| "replay_txs wallet (MalformedTx # txs) st = None"
| "replay_txs wallet (Tx t # txs) st = replay_txs wallet txs (process_tx wallet t st)"

record token_report =
  report_mint :: string
  bought_sol :: real
  sold_sol :: real
  pnl_sol :: real
  roi_pct :: real
  holding :: real
  win :: bool

text \<open>The loop over \<^verbatim>\<open>token_pnl.items()\<close> with its three accumulators.\<close>

fun per_token_loop :: "(string \<times> ledger) list \<Rightarrow> (string \<times> real) list
    \<Rightarrow> token_report list \<Rightarrow> nat \<Rightarrow> real \<Rightarrow> token_report list \<times> nat \<times> real" where
  "per_token_loop [] holdings token_reports wins total_pnl = (token_reports, wins, total_pnl)"
| "per_token_loop ((mint, data) # items) holdings token_reports wins total_pnl =
     (let bought = buy_sol data;
          sold = sell_sol data;
          pnl = sold - bought;
          total_pnl = total_pnl + pnl
      in if 0 < bought then
           (let roi_pct = (if 0 < bought then (sold - bought) / bought * 100 else 0);
                is_win = (0 < pnl);
                wins = (if is_win then wins + 1 else wins)
            in per_token_loop items holdings
                 (token_reports @
                    [\<lparr>report_mint = mint, bought_sol = py_round bought 4,
                      sold_sol = py_round sold 4, pnl_sol = py_round pnl 4,
                      roi_pct = py_round roi_pct 1,
                      holding = py_round (dict_lookup holdings mint 0) 2, win = is_win\<rparr>])
                 wins total_pnl)
         else per_token_loop items holdings token_reports wins total_pnl)"

record pnl_report =
  total_pnl_sol :: real
  win_rate :: real
  wins :: nat
  total_positions :: nat
  token_breakdown :: "token_report list"
  holdings_left :: "(string \<times> real) list"
  trade_count :: nat

text \<open>Everything after the replay loop; the field \<open>holdings_left\<close> is the entry
  \<^verbatim>\<open>"current_holdings"\<close> of the returned dictionary.\<close>

definition build_report :: "replay_state \<Rightarrow> pnl_report option" where
  "build_report st =
     (if trades st = [] then None
      else (let (token_reports, wins, total_pnl) =
                  per_token_loop (token_pnl st) (current_holdings st) [] 0 0;
                token_reports = sorted_reverse pnl_sol token_reports;
                total_trades = length (token_pnl st);
                win_rate = (if 0 < total_trades then real wins / real total_trades else 0)
            in Some \<lparr>total_pnl_sol = py_round total_pnl 4,
                     win_rate = py_round win_rate 3,
                     wins = wins,
                     total_positions = total_trades,
                     token_breakdown = token_reports,
                     holdings_left = filter (\<lambda>(k, v). 0 < v) (current_holdings st),
                     trade_count = length (trades st)\<rparr>))"

text \<open>The whole function: every exception is caught and turned into \<open>None\<close>. The
  parameter \<open>mints\<close> is not used by the body, as in the source.\<close>

definition calculate_wallet_pnl :: "session \<Rightarrow> string \<Rightarrow> string list
    \<Rightarrow> pnl_report option \<times> request list" where
  "calculate_wallet_pnl s wallet mints =
     (case transactions s wallet of
        ActivityRaised \<Rightarrow> None
      | ActivityReply status body \<Rightarrow>
          if status \<noteq> 200 then None
          else (case body of
                  InvalidJson \<Rightarrow> None
                | NotAList \<Rightarrow> None
                | TxList txs \<Rightarrow>
                    if txs = [] then None
                    else (case replay_txs wallet txs initial_state of
                            None \<Rightarrow> None
                          | Some st \<Rightarrow> build_report st)),
      [TransactionsRequest wallet])"

subsection \<open>The entry point \<^verbatim>\<open>find_smart_money\<close>\<close>

text \<open>An element of \<^verbatim>\<open>qualified\<close>: the PnL report with the two keys added by step 4.\<close>

record qualified_wallet = pnl_report +
  report_wallet :: string
  tokens_held :: "string list"

record smart_money_report =
  mints_analyzed :: "string list"
  total_common_wallets :: nat
  qualified_wallets :: "qualified_wallet list"
  min_win_rate :: real
  min_pnl_sol :: real

text \<open>The three dictionaries the function can return: the two with an
  \<^verbatim>\<open>"error"\<close> key (the second also carries \<^verbatim>\<open>"holder_counts"\<close>) and the report.\<close>

datatype result =
    ErrorResult string "nat list option"
  | Report smart_money_report

text \<open>The loop of step 4 over \<^verbatim>\<open>zip(common_wallets, pnl_results)\<close>. The lookup
  \<^verbatim>\<open>common[wallet]\<close> cannot fail: the wallets are keys of \<^verbatim>\<open>common\<close>.\<close>

fun filter_loop :: "(string \<times> string list) list \<Rightarrow> real \<Rightarrow> real
    \<Rightarrow> (string \<times> pnl_report option) list \<Rightarrow> qualified_wallet list \<Rightarrow> qualified_wallet list" where
  "filter_loop common mwr mpnl [] qualified = qualified"
| "filter_loop common mwr mpnl ((wallet, None) # rest) qualified =
     filter_loop common mwr mpnl rest qualified"
| "filter_loop common mwr mpnl ((wallet, Some pnl_data) # rest) qualified =
     (if mwr \<le> win_rate pnl_data \<and> mpnl \<le> total_pnl_sol pnl_data
      then filter_loop common mwr mpnl rest
             (qualified @ [pnl_report.extend pnl_data
                 (qualified_wallet.fields wallet (dict_get common wallet))])
      else filter_loop common mwr mpnl rest qualified)"

definition find_smart_money :: "session \<Rightarrow> string list \<Rightarrow> real \<Rightarrow> real
    \<Rightarrow> result \<times> request list" where
  "find_smart_money s mints0 mwr mpnl =
     (if length mints0 < 2
      then (ErrorResult ''Please provide at least 2 contract addresses.'' None, [])
      else
        (let mints = (if 5 < length mints0 then take 5 mints0 else mints0);
             (holder_lists, reqs1) = gather (get_top_holders s) mints;
             common = find_intersection holder_lists mints 2
         in if common = []
            then (ErrorResult
                    ''No common wallets found across these tokens. Try tokens with more overlap.''
                    (Some (map length holder_lists)), reqs1)
            else
              (let common_wallets = take 30 (map fst common);
                   (pnl_results, reqs2) =
                      gather (\<lambda>wallet. calculate_wallet_pnl s wallet mints) common_wallets;
                   qualified = filter_loop common mwr mpnl (zip common_wallets pnl_results) [];
                   qualified = sorted_reverse total_pnl_sol qualified
               in (Report \<lparr>mints_analyzed = mints,
                           total_common_wallets = length common,
                           qualified_wallets = take 10 qualified,
                           min_win_rate = mwr,
                           min_pnl_sol = mpnl\<rparr>,
                   reqs1 @ reqs2))))"

subsection \<open>Notions used to state the properties of the trade reconstructor\<close>

text \<open>
  The state in which the replay loop of \<^verbatim>\<open>calculate_wallet_pnl\<close> ends for a wallet
  (the initial state when the loop is not reached or raises), and its list \<^verbatim>\<open>trades\<close>:
  the BUY and SELL legs that the code has classified.
\<close>

definition replay_of :: "session \<Rightarrow> string \<Rightarrow> replay_state" where
  "replay_of s wallet =
     (case transactions s wallet of
        ActivityRaised \<Rightarrow> initial_state
      | ActivityReply status body \<Rightarrow>
          (case body of
             InvalidJson \<Rightarrow> initial_state
           | NotAList \<Rightarrow> initial_state
           | TxList txs \<Rightarrow>
               (case replay_txs wallet txs initial_state of
                  None \<Rightarrow> initial_state
                | Some st \<Rightarrow> st)))"

definition trade_log :: "session \<Rightarrow> string \<Rightarrow> trade list" where
  "trade_log s wallet = trades (replay_of s wallet)"

text \<open>Per mint: the SOL spent in its BUY legs, the SOL received in its SELL legs, and
  whether it has a BUY leg at all.\<close>

definition bought_in :: "trade list \<Rightarrow> string \<Rightarrow> real" where
  "bought_in ts m =
     sum_list (map trade_sol (filter (\<lambda>t. trade_type t = BUY \<and> trade_mint t = m) ts))"

definition sold_in :: "trade list \<Rightarrow> string \<Rightarrow> real" where
  "sold_in ts m =
     sum_list (map trade_sol (filter (\<lambda>t. trade_type t = SELL \<and> trade_mint t = m) ts))"

definition has_buy :: "trade list \<Rightarrow> string \<Rightarrow> bool" where
  "has_buy ts m = (filter (\<lambda>t. trade_type t = BUY \<and> trade_mint t = m) ts \<noteq> [])"

text \<open>
  The specification's reading of the report, to be compared with what the code computes:
  realized PnL summed over the tokens with at least one BUY leg, and the number of such
  tokens as the denominator of the win rate.
\<close>

definition spec_realized_pnl :: "trade list \<Rightarrow> real" where
  "spec_realized_pnl ts =
     sum_list (map (\<lambda>m. sold_in ts m - bought_in ts m)
       (filter (has_buy ts) (first_seen (map trade_mint ts))))"

definition spec_win_rate_denominator :: "trade list \<Rightarrow> nat" where
  "spec_win_rate_denominator ts = length (filter (has_buy ts) (first_seen (map trade_mint ts)))"

text \<open>The provider failures that the function absorbs: the request raises, the status
  is not 200, the body is not JSON or not a list, or an element of the list makes the
  replay raise.\<close>

definition provider_failure :: "activity_reply \<Rightarrow> bool" where
  "provider_failure reply =
     (case reply of
        ActivityRaised \<Rightarrow> True
      | ActivityReply status body \<Rightarrow>
          status \<noteq> 200 \<or>
          (case body of
             InvalidJson \<Rightarrow> True
           | NotAList \<Rightarrow> True
           | TxList txs \<Rightarrow> MalformedTx \<in> set txs))"

text \<open>The transactions that the replay loop processes before it ends or raises.\<close>

fun processed_txs :: "tx_json list \<Rightarrow> tx list" where
  "processed_txs [] = []"
| "processed_txs (MalformedTx # txs) = []"
| "processed_txs (Tx t # txs) = t # processed_txs txs"

text \<open>The updates of the replay in program order: each token transfer with the SOL
  change and the timestamp of its transaction.\<close>

definition updates_of :: "string \<Rightarrow> tx list \<Rightarrow> (real \<times> int \<times> token_transfer) list" where
  "updates_of wallet txs =
     concat (map (\<lambda>t. map (\<lambda>transfer. (sol_change_of wallet (accountData t), timestamp t, transfer))
                        (tokenTransfers t)) txs)"

definition apply_updates :: "string \<Rightarrow> (real \<times> int \<times> token_transfer) list \<Rightarrow> replay_state
    \<Rightarrow> replay_state" where
  "apply_updates wallet us st =
     fold (\<lambda>(sol_change, ts, transfer). process_transfer wallet sol_change ts transfer) us st"

text \<open>The ledger agrees with the trade log: the keys of \<^verbatim>\<open>token_pnl\<close> are the traded
  mints in first-seen order, every ledger entry holds the sums of its mint's legs, and every
  leg moved a positive amount of SOL.\<close>

definition ledger_consistent :: "replay_state \<Rightarrow> bool" where
  "ledger_consistent st =
     (map fst (token_pnl st) = first_seen (map trade_mint (trades st))
      \<and> (\<forall>m. buy_sol (dict_lookup (token_pnl st) m empty_ledger) = bought_in (trades st) m
             \<and> sell_sol (dict_lookup (token_pnl st) m empty_ledger) = sold_in (trades st) m)
      \<and> (\<forall>t \<in> set (trades st). 0 < trade_sol t))"

definition holdings_nonneg :: "replay_state \<Rightarrow> bool" where
  "holdings_nonneg st = list_all (\<lambda>(m, q). 0 \<le> q) (current_holdings st)"

text \<open>The pipeline of \<^verbatim>\<open>find_smart_money\<close> up to step 2: the mints it analyses, the
  holder lists it fetches, and the intersection.\<close>

definition analysed_mints :: "string list \<Rightarrow> string list" where
  "analysed_mints mints = take 5 mints"

definition holder_lists_of :: "session \<Rightarrow> string list \<Rightarrow> string list list" where
  "holder_lists_of s mints = map (\<lambda>mint. fst (get_top_holders s mint)) (analysed_mints mints)"

definition common_of :: "session \<Rightarrow> string list \<Rightarrow> (string \<times> string list) list" where
  "common_of s mints = find_intersection (holder_lists_of s mints) (analysed_mints mints) 2"

text \<open>The qualified entry that step 4 builds for a wallet, if any.\<close>

definition qualified_entry :: "session \<Rightarrow> string list \<Rightarrow> real \<Rightarrow> real \<Rightarrow> string
    \<Rightarrow> qualified_wallet list" where
  "qualified_entry s mints mwr mpnl wallet =
     (case fst (calculate_wallet_pnl s wallet (analysed_mints mints)) of
        None \<Rightarrow> []
      | Some r \<Rightarrow>
          if mwr \<le> win_rate r \<and> mpnl \<le> total_pnl_sol r
          then [pnl_report.extend r
                  (qualified_wallet.fields wallet (dict_get (common_of s mints) wallet))]
          else [])"

definition is_transactions_request :: "request \<Rightarrow> bool" where
  "is_transactions_request r = (case r of TransactionsRequest w \<Rightarrow> True | _ \<Rightarrow> False)"

subsection \<open>Example data\<close>

text \<open>Three wallet addresses, and the wrapped-SOL mint, which is one of the excluded
  addresses.\<close>

definition wallet_A :: string where
  "wallet_A = ''AAAAAAAAAAAAAAAAAAAAAAAAAAAAAAAAAAAAAAAAAAAA''"

definition wallet_B :: string where
  "wallet_B = ''BBBBBBBBBBBBBBBBBBBBBBBBBBBBBBBBBBBBBBBBBBBB''"

definition wallet_C :: string where
  "wallet_C = ''CCCCCCCCCCCCCCCCCCCCCCCCCCCCCCCCCCCCCCCCCCCC''"

definition wrapped_sol :: string where
  "wrapped_sol = ''So11111111111111111111111111111111111111112''"

text \<open>A transaction in which the wallet pays SOL and receives a token, and one in which
  it sends a token and receives SOL; amounts of SOL are in lamports.\<close>

definition buy_tx :: "int \<Rightarrow> string \<Rightarrow> real \<Rightarrow> string \<Rightarrow> real \<Rightarrow> tx_json" where
  "buy_tx ts wallet lamports mint amount =
     Tx \<lparr>timestamp = ts,
         accountData = [\<lparr>account = wallet, nativeBalanceChange = - lamports\<rparr>],
         tokenTransfers = [\<lparr>transfer_mint = mint, fromUserAccount = ''pool'',
                            toUserAccount = wallet, tokenAmount = amount\<rparr>]\<rparr>"

definition sell_tx :: "int \<Rightarrow> string \<Rightarrow> real \<Rightarrow> string \<Rightarrow> real \<Rightarrow> tx_json" where
  "sell_tx ts wallet lamports mint amount =
     Tx \<lparr>timestamp = ts,
         accountData = [\<lparr>account = wallet, nativeBalanceChange = lamports\<rparr>],
         tokenTransfers = [\<lparr>transfer_mint = mint, fromUserAccount = wallet,
                            toUserAccount = ''pool'', tokenAmount = amount\<rparr>]\<rparr>"

text \<open>
  A provider for the examples. Every mint has the three wallets as holders. \<open>wallet_A\<close>
  bought T1 for 2 SOL, sold it for 6 SOL, and sold T2, which it never bought in the window,
  for 1 SOL; the request for \<open>wallet_B\<close> fails with status 500; \<open>wallet_C\<close> bought T1 for 3 SOL
  and sold it for 15 SOL.
\<close>

definition activity_A :: "tx_json list" where
  "activity_A =
     [buy_tx 1 wallet_A 2000000000 ''T1'' 50,
      sell_tx 2 wallet_A 6000000000 ''T1'' 50,
      sell_tx 3 wallet_A 1000000000 ''T2'' 10]"

definition activity_C :: "tx_json list" where
  "activity_C =
     [buy_tx 1 wallet_C 3000000000 ''T1'' 70,
      sell_tx 2 wallet_C 15000000000 ''T1'' 70]"

definition example_session :: session where
  "example_session =
     \<lparr>getTokenLargestAccounts = (\<lambda>mint. LargestReply [''account-1'', ''account-2'', ''account-3'']),
      getMultipleAccounts = (\<lambda>accounts.
         OwnersReply [ParsedAccount wallet_A, ParsedAccount wallet_B, ParsedAccount wallet_C]),
      transactions = (\<lambda>wallet.
         if wallet = wallet_A then ActivityReply 200 (TxList activity_A)
         else if wallet = wallet_C then ActivityReply 200 (TxList activity_C)
         else ActivityReply 500 NotAList)\<rparr>"

text \<open>The reports that \<^verbatim>\<open>calculate_wallet_pnl\<close> returns for \<open>wallet_A\<close> and \<open>wallet_C\<close>.\<close>

definition report_A :: pnl_report where
  "report_A =
     \<lparr>total_pnl_sol = 5, win_rate = 1 / 2, wins = 1, total_positions = 2,
      token_breakdown =
        [\<lparr>report_mint = ''T1'', bought_sol = 2, sold_sol = 6, pnl_sol = 4,
          roi_pct = 200, holding = 0, win = True\<rparr>],
      holdings_left = [], trade_count = 3\<rparr>"

definition report_C :: pnl_report where
  "report_C =
     \<lparr>total_pnl_sol = 12, win_rate = 1, wins = 1, total_positions = 1,
      token_breakdown =
        [\<lparr>report_mint = ''T1'', bought_sol = 3, sold_sol = 15, pnl_sol = 12,
          roi_pct = 400, holding = 0, win = True\<rparr>],
      holdings_left = [], trade_count = 2\<rparr>"

text \<open>
  A provider under which 31 wallets hold both mints. The request for the activity of the
  first 30 raises; the last wallet bought T1 for 1 SOL and sold it for 90 SOL.
\<close>

definition many_wallets :: "string list" where
  "many_wallets = map (\<lambda>n. replicate (32 + n) CHR ''W'') [0..<31]"

definition crowded_session :: session where
  "crowded_session =
     \<lparr>getTokenLargestAccounts = (\<lambda>mint. LargestReply [''account'']),
      getMultipleAccounts = (\<lambda>accounts. OwnersReply (map ParsedAccount many_wallets)),
      transactions = (\<lambda>wallet.
         if wallet = replicate 62 CHR ''W'' then
           ActivityReply 200 (TxList
             [buy_tx 1 wallet 1000000000 ''T1'' 5, sell_tx 2 wallet 90000000000 ''T1'' 5])
         else ActivityRaised)\<rparr>"

text \<open>A provider whose every request raises.\<close>

definition silent_session :: session where
  "silent_session =
     \<lparr>getTokenLargestAccounts = (\<lambda>mint. LargestRaised),
      getMultipleAccounts = (\<lambda>accounts. OwnersRaised),
      transactions = (\<lambda>wallet. ActivityRaised)\<rparr>"

text \<open>The report of \<^verbatim>\<open>find_smart_money\<close> for the two mints T1 and T2 under
  \<open>example_session\<close>, with thresholds one half and 3 SOL.\<close>

definition example_report :: smart_money_report where
  "example_report =
     \<lparr>mints_analyzed = [''T1'', ''T2''],
      total_common_wallets = 3,
      qualified_wallets =
        [pnl_report.extend report_C (qualified_wallet.fields wallet_C [''T1'', ''T2'']),
         pnl_report.extend report_A (qualified_wallet.fields wallet_A [''T1'', ''T2''])],
      min_win_rate = 1 / 2,
      min_pnl_sol = 3\<rparr>"


section \<open>Properties\<close>

subsection \<open>First-seen order and dictionaries of lists\<close>

lemma set_first_seen: "set (first_seen xs) = set xs"
  by (induction xs) auto

lemma distinct_first_seen: "distinct (first_seen xs)"
  by (induction xs) (auto simp: set_first_seen)

lemma first_seen_filter: "first_seen (filter P xs) = filter P (first_seen xs)"
proof (induction xs)
  case Nil
  then show ?case by simp
next
  case (Cons x xs)
  show ?case
  proof (cases "P x")
    case True
    with Cons show ?thesis by (simp add: conj_commute)
  next
    case False
    then have "filter (\<lambda>y. y \<noteq> x \<and> P y) (first_seen xs) = filter P (first_seen xs)"
      by (intro filter_cong) auto
    with Cons False show ?thesis by simp
  qed
qed

lemma first_seen_snoc:
  "first_seen (xs @ [x]) = (if x \<in> set xs then first_seen xs else first_seen xs @ [x])"
proof (induction xs)
  case Nil
  then show ?case by simp
next
  case (Cons a xs)
  then show ?case by (auto simp: set_first_seen filter_id_conv)
qed

lemma keys_dict_append:
  "map fst (dict_append d k v) = (if k \<in> fst ` set d then map fst d else map fst d @ [k])"
  by (induction d k v rule: dict_append.induct) auto

lemma dict_get_dict_append:
  "dict_get (dict_append d k v) k' = (if k' = k then dict_get d k @ [v] else dict_get d k')"
  by (induction d k v rule: dict_append.induct) (auto simp: dict_get_def)

lemma add_holders_fold:
  "add_holders mint holders d =
   fold (\<lambda>(w, m) d. dict_append d w m) (map (\<lambda>w. (w, mint)) (filter is_candidate holders)) d"
  by (induction holders arbitrary: d) (auto simp: is_candidate_def)

lemma collect_holders_fold:
  "collect_holders zs d = fold (\<lambda>(w, m) d. dict_append d w m) (kept_pairs zs) d"
  by (induction zs d rule: collect_holders.induct) (auto simp: kept_pairs_def add_holders_fold)

lemma keys_fold_dict_append:
  "map fst (fold (\<lambda>(w, m) d. dict_append d w m) ps []) = first_seen (map fst ps)"
proof (induction ps rule: rev_induct)
  case Nil
  then show ?case by simp
next
  case (snoc p ps)
  obtain w m where p: "p = (w, m)" by (cases p)
  have "set (first_seen (map fst ps)) = fst ` set ps"
    by (simp add: set_first_seen)
  with snoc have "fst ` set (fold (\<lambda>(w, m) d. dict_append d w m) ps []) = fst ` set ps"
    by (metis set_map)
  with snoc show ?case
    by (simp add: p keys_dict_append first_seen_snoc)
qed

lemma dict_get_fold_dict_append:
  "dict_get (fold (\<lambda>(w, m) d. dict_append d w m) ps []) k = map snd (filter (\<lambda>p. fst p = k) ps)"
proof (induction ps rule: rev_induct)
  case Nil
  then show ?case by (simp add: dict_get_def)
next
  case (snoc p ps)
  then show ?case by (cases p) (auto simp: dict_get_dict_append)
qed

lemma dict_get_entry:
  "distinct (map fst d) \<Longrightarrow> (k, vs) \<in> set d \<Longrightarrow> dict_get d k = vs"
  by (simp add: dict_get_def)

subsection \<open>The dictionary built by \<^verbatim>\<open>find_intersection\<close>\<close>

lemma keys_kept_pairs: "map fst (kept_pairs zs) = filter is_candidate (concat (map snd zs))"
  by (induction zs) (auto simp: kept_pairs_def comp_def)

lemma filter_eq_distinct:
  "distinct xs \<Longrightarrow> filter (\<lambda>y. y = x) xs = (if x \<in> set xs then [x] else [])"
  by (induction xs) auto

lemma mints_of_kept_pairs:
  assumes "\<forall>(mint, holders) \<in> set zs. distinct holders"
  shows "map snd (filter (\<lambda>p. fst p = w) (kept_pairs zs)) =
         (if is_candidate w then mints_holding zs w else [])"
  using assms
proof (induction zs)
  case Nil
  then show ?case by (simp add: kept_pairs_def mints_holding_def)
next
  case (Cons z zs)
  obtain m h where z: "z = (m, h)" by (cases z)
  from Cons.prems z have dh: "distinct h" by simp
  have "filter (\<lambda>p. fst p = w) (map (\<lambda>w. (w, m)) (filter is_candidate h)) =
        map (\<lambda>w. (w, m)) (filter is_candidate (filter (\<lambda>y. y = w) h))"
    by (simp add: filter_map comp_def conj_commute)
  also have "\<dots> = (if w \<in> set h \<and> is_candidate w then [(w, m)] else [])"
    by (simp add: filter_eq_distinct [OF dh])
  finally have inner: "map snd (filter (\<lambda>p. fst p = w) (map (\<lambda>w. (w, m)) (filter is_candidate h)))
      = (if w \<in> set h \<and> is_candidate w then [m] else [])"
    by simp
  have rest: "map snd (filter (\<lambda>p. fst p = w) (kept_pairs zs)) =
         (if is_candidate w then mints_holding zs w else [])"
    using Cons by simp
  have "kept_pairs (z # zs) = map (\<lambda>w. (w, m)) (filter is_candidate h) @ kept_pairs zs"
    by (simp add: kept_pairs_def z)
  then show ?case
    using inner rest by (simp add: mints_holding_def z)
qed

subsection \<open>Sorting in descending order\<close>

lemma set_sorted_reverse: "set (sorted_reverse key xs) = set xs"
  by (simp add: sorted_reverse_def)

lemma length_sorted_reverse: "length (sorted_reverse key xs) = length xs"
  by (simp add: sorted_reverse_def)

lemma distinct_map_sorted_reverse:
  "distinct (map f (sorted_reverse key xs)) = distinct (map f xs)"
  by (simp add: sorted_reverse_def distinct_map rev_map [symmetric])

lemma sorted_reverse_descending: "sorted (rev (map key (sorted_reverse key xs)))"
  by (simp add: sorted_reverse_def rev_map)

lemma sorted_reverse_stable:
  "filter (\<lambda>y. key y = k) (sorted_reverse key xs) = filter (\<lambda>y. key y = k) xs"
proof -
  have "filter (\<lambda>y. key y = k) (sorted_reverse key xs) =
        rev (filter (\<lambda>y. key y = k) (sort_key key (rev xs)))"
    by (simp add: sorted_reverse_def rev_filter)
  also have "\<dots> = rev (filter (\<lambda>y. key y = k) (rev xs))"
    by (simp only: sort_key_stable)
  finally show ?thesis by (simp add: rev_filter)
qed


subsection \<open>The intersection\<close>

lemma wallet_to_mints_keys:
  "map fst (collect_holders zs []) = filter is_candidate (first_seen (concat (map snd zs)))"
  by (simp add: collect_holders_fold keys_fold_dict_append keys_kept_pairs first_seen_filter)

lemma wallet_to_mints_distinct: "distinct (map fst (collect_holders zs []))"
  by (simp add: wallet_to_mints_keys distinct_first_seen)

lemma wallet_to_mints_entry:
  assumes "\<forall>(mint, holders) \<in> set zs. distinct holders"
    and "(w, held) \<in> set (collect_holders zs [])"
  shows "held = mints_holding zs w \<and> is_candidate w"
proof -
  have "w \<in> set (map fst (collect_holders zs []))"
    using assms(2) by force
  then have cand: "is_candidate w"
    by (simp add: wallet_to_mints_keys)
  have "held = dict_get (collect_holders zs []) w"
    using dict_get_entry [OF wallet_to_mints_distinct assms(2)] by simp
  also have "\<dots> = map snd (filter (\<lambda>p. fst p = w) (kept_pairs zs))"
    by (simp add: collect_holders_fold dict_get_fold_dict_append)
  also have "\<dots> = mints_holding zs w"
    using mints_of_kept_pairs [OF assms(1)] cand by simp
  finally show ?thesis using cand by simp
qed

lemma find_intersection_keys_subset:
  "set (map fst (find_intersection holder_lists mints min_appearances))
     \<subseteq> {w. is_candidate w}"
proof -
  have "set (map fst (find_intersection holder_lists mints min_appearances))
        \<subseteq> set (map fst (collect_holders (zip mints holder_lists) []))"
    by (auto simp: find_intersection_def Let_def set_sorted_reverse)
  then show ?thesis
    by (auto simp: wallet_to_mints_keys)
qed

text \<open>
  Claim C7: whatever the holder lists, the mints and the threshold are, no address of
  \<^verbatim>\<open>EXCLUDED_PROGRAMS\<close> is a key of the dictionary that
  \<^verbatim>\<open>find_intersection\<close> returns.
\<close>

theorem excluded_never_in_intersection:
  "wallet \<in> EXCLUDED_PROGRAMS \<Longrightarrow>
   wallet \<notin> fst ` set (find_intersection holder_lists mints min_appearances)"
  using find_intersection_keys_subset [of holder_lists mints min_appearances]
  by (auto simp: is_candidate_def)

theorem excluded_never_in_intersection_witness:
  "''So11111111111111111111111111111111111111112'' \<in> EXCLUDED_PROGRAMS \<and>
   ''So11111111111111111111111111111111111111112'' \<notin> fst ` set (find_intersection
      [[''So11111111111111111111111111111111111111112'', ''9WzDXwBbmkg8ZTbNMqUxvQRAyrZzDsGYdLVL9zYtAWWM''],
       [''9WzDXwBbmkg8ZTbNMqUxvQRAyrZzDsGYdLVL9zYtAWWM'', ''So11111111111111111111111111111111111111112'']]
      [''MintA'', ''MintB''] 2)"
proof -
  have h: "''So11111111111111111111111111111111111111112'' \<in> EXCLUDED_PROGRAMS"
    by (simp add: EXCLUDED_PROGRAMS_def)
  show ?thesis
    using h excluded_never_in_intersection [OF h] by simp
qed


lemma common_keys:
  assumes "\<forall>(mint, holders) \<in> set zs. distinct holders"
  shows "map fst (filter (\<lambda>(wallet, held_mints). n \<le> int (length held_mints)) (collect_holders zs []))
       = filter (\<lambda>w. n \<le> int (length (mints_holding zs w)))
           (filter is_candidate (first_seen (concat (map snd zs))))"
proof -
  have "filter (\<lambda>(wallet, held_mints). n \<le> int (length held_mints)) (collect_holders zs [])
      = filter ((\<lambda>w. n \<le> int (length (mints_holding zs w))) \<circ> fst) (collect_holders zs [])"
    using wallet_to_mints_entry [OF assms] by (intro filter_cong) auto
  then show ?thesis
    by (simp add: filter_map wallet_to_mints_keys [symmetric])
qed

lemma find_intersection_entry:
  assumes "\<forall>(mint, holders) \<in> set (zip mints holder_lists). distinct holders"
    and "(w, held) \<in> set (find_intersection holder_lists mints n)"
  shows "held = mints_holding (zip mints holder_lists) w"
proof -
  from assms(2) have "(w, held) \<in> set (collect_holders (zip mints holder_lists) [])"
    by (simp add: find_intersection_def Let_def set_sorted_reverse)
  with wallet_to_mints_entry [OF assms(1)] show ?thesis by blast
qed

lemma find_intersection_distinct:
  "distinct (map fst (find_intersection holder_lists mints n))"
  by (simp add: find_intersection_def Let_def distinct_map_sorted_reverse
      distinct_map_filter wallet_to_mints_distinct)

lemma find_intersection_descending:
  "sorted (rev (map (\<lambda>x. length (snd x)) (find_intersection holder_lists mints n)))"
  by (simp add: find_intersection_def Let_def sorted_reverse_descending)

lemma find_intersection_key_set:
  assumes "\<forall>(mint, holders) \<in> set (zip mints holder_lists). distinct holders"
  shows "set (map fst (find_intersection holder_lists mints n)) =
         {w \<in> set (concat (map snd (zip mints holder_lists))).
            is_candidate w \<and> n \<le> int (length (mints_holding (zip mints holder_lists) w))}"
proof -
  have "set (map fst (find_intersection holder_lists mints n)) =
        set (map fst (filter (\<lambda>(wallet, held_mints). n \<le> int (length held_mints))
               (collect_holders (zip mints holder_lists) [])))"
    by (simp add: find_intersection_def Let_def set_sorted_reverse)
  also have "\<dots> = {w \<in> set (concat (map snd (zip mints holder_lists))).
            is_candidate w \<and> n \<le> int (length (mints_holding (zip mints holder_lists) w))}"
    unfolding common_keys [OF assms] by (auto simp: set_first_seen)
  finally show ?thesis .
qed

lemma find_intersection_ties:
  assumes "\<forall>(mint, holders) \<in> set (zip mints holder_lists). distinct holders"
  shows "filter (\<lambda>w. length (mints_holding (zip mints holder_lists) w) = k)
           (map fst (find_intersection holder_lists mints n)) =
         filter (\<lambda>w. length (mints_holding (zip mints holder_lists) w) = k \<and> is_candidate w \<and> n \<le> int k)
           (first_seen (concat (map snd (zip mints holder_lists))))"
proof -
  let ?zs = "zip mints holder_lists"
  let ?out = "find_intersection holder_lists mints n"
  let ?common = "filter (\<lambda>(wallet, held_mints). n \<le> int (length held_mints)) (collect_holders ?zs [])"
  have out: "?out = sorted_reverse (\<lambda>x. length (snd x)) ?common"
    by (simp add: find_intersection_def Let_def)
  have "filter (\<lambda>w. length (mints_holding ?zs w) = k) (map fst ?out) =
        map fst (filter (\<lambda>y. length (mints_holding ?zs (fst y)) = k) ?out)"
    by (simp add: filter_map comp_def)
  also have "filter (\<lambda>y. length (mints_holding ?zs (fst y)) = k) ?out =
             filter (\<lambda>y. length (snd y) = k) ?out"
    using find_intersection_entry [OF assms] by (intro filter_cong) auto
  also have "\<dots> = filter (\<lambda>y. length (snd y) = k) ?common"
    unfolding out by (rule sorted_reverse_stable)
  also have "\<dots> = filter (\<lambda>y. length (mints_holding ?zs (fst y)) = k) ?common"
    using wallet_to_mints_entry [OF assms] by (intro filter_cong) auto
  also have "map fst \<dots> = filter (\<lambda>w. length (mints_holding ?zs w) = k) (map fst ?common)"
    by (simp add: filter_map comp_def)
  also have "\<dots> = filter (\<lambda>w. length (mints_holding ?zs w) = k \<and> is_candidate w \<and> n \<le> int k)
           (first_seen (concat (map snd ?zs)))"
    unfolding common_keys [OF assms] by (auto intro: filter_cong)
  finally show ?thesis .
qed


text \<open>
  Claim C3, as the code has it. A wallet that the guard of the inner loop skips (shorter
  than 32 characters, or in \<^verbatim>\<open>EXCLUDED_PROGRAMS\<close>) is never kept. For holder lists
  without repeated entries, with \<open>zs\<close> the (mint, holders) pairs that the loop visits: the
  keys of the result are distinct; they are exactly the wallets that pass the guard and
  occur in at least \<open>min_appearances\<close> of the holder lists; each key is mapped to the mints
  of the lists that contain it, in the order of the mints; the keys are ordered by the
  number of those mints, descending; and keys with the same number are in first-seen order.
\<close>

theorem find_intersection_deduplicated:
  assumes "\<forall>holders \<in> set holder_lists. distinct holders"
  shows "let zs = zip mints holder_lists;
             out = find_intersection holder_lists mints min_appearances
         in distinct (map fst out)
          \<and> set (map fst out) =
              {w \<in> set (concat (map snd zs)).
                 is_candidate w \<and> min_appearances \<le> int (length (mints_holding zs w))}
          \<and> (\<forall>(w, held) \<in> set out. held = mints_holding zs w)
          \<and> sorted (rev (map (\<lambda>x. length (snd x)) out))
          \<and> (\<forall>k. filter (\<lambda>w. length (mints_holding zs w) = k) (map fst out) =
                   filter (\<lambda>w. length (mints_holding zs w) = k \<and> is_candidate w
                               \<and> min_appearances \<le> int k)
                     (first_seen (concat (map snd zs))))"
proof -
  have dedup: "\<forall>(mint, holders) \<in> set (zip mints holder_lists). distinct holders"
    using assms by (auto dest: set_zip_rightD)
  show ?thesis
    unfolding Let_def
    using find_intersection_distinct [of holder_lists mints min_appearances]
      find_intersection_key_set [OF dedup, of min_appearances]
      find_intersection_entry [OF dedup, of _ _ min_appearances]
      find_intersection_descending [of holder_lists mints min_appearances]
      find_intersection_ties [OF dedup, of _ min_appearances]
    by blast
qed

lemma find_intersection_example:
  "find_intersection [[wallet_A, wallet_B, wallet_C], [wallet_C, wallet_B], [wallet_C]]
     [''T1'', ''T2'', ''T3''] 2 =
   [(wallet_C, [''T1'', ''T2'', ''T3'']), (wallet_B, [''T1'', ''T2''])]"
  by (simp add: find_intersection_def sorted_reverse_def EXCLUDED_PROGRAMS_def
      wallet_A_def wallet_B_def wallet_C_def)

theorem find_intersection_deduplicated_witness:
  "distinct [wallet_A, wallet_B, wallet_C] \<and> distinct [wallet_C, wallet_B] \<and> distinct [wallet_C]
   \<and> (let zs = zip [''T1'', ''T2'', ''T3'']
                  [[wallet_A, wallet_B, wallet_C], [wallet_C, wallet_B], [wallet_C]];
           out = [(wallet_C, [''T1'', ''T2'', ''T3'']), (wallet_B, [''T1'', ''T2''])]
       in distinct (map fst out)
          \<and> set (map fst out) =
              {w \<in> set (concat (map snd zs)).
                 is_candidate w \<and> 2 \<le> int (length (mints_holding zs w))}
          \<and> (\<forall>(w, held) \<in> set out. held = mints_holding zs w)
          \<and> sorted (rev (map (\<lambda>x. length (snd x)) out))
          \<and> (\<forall>k. filter (\<lambda>w. length (mints_holding zs w) = k) (map fst out) =
                   filter (\<lambda>w. length (mints_holding zs w) = k \<and> is_candidate w
                               \<and> 2 \<le> int k)
                     (first_seen (concat (map snd zs)))))"
proof -
  have d: "distinct [wallet_A, wallet_B, wallet_C] \<and> distinct [wallet_C, wallet_B]
      \<and> distinct [wallet_C]"
    by (simp add: wallet_A_def wallet_B_def wallet_C_def)
  then have h: "\<forall>holders \<in> set [[wallet_A, wallet_B, wallet_C], [wallet_C, wallet_B], [wallet_C]].
      distinct holders"
    by simp
  show ?thesis
    using d find_intersection_deduplicated [OF h, of "[''T1'', ''T2'', ''T3'']" 2]
    unfolding find_intersection_example by simp
qed

text \<open>
  Claim C3 as stated fails: \<open>wrapped_sol\<close> is in both holder lists and is dropped, while
  \<open>wallet_A\<close> is in the first list only, twice, and is kept.
\<close>

theorem find_intersection_counterexample:
  "find_intersection [[wrapped_sol, wallet_A, wallet_A], [wrapped_sol]] [''T1'', ''T2''] 2
     = [(wallet_A, [''T1'', ''T1''])]
   \<and> wallet_A \<notin> set [wrapped_sol] \<and> wrapped_sol \<in> set [wrapped_sol, wallet_A, wallet_A]"
  by (simp add: find_intersection_def sorted_reverse_def EXCLUDED_PROGRAMS_def
      wallet_A_def wrapped_sol_def)


subsection \<open>Dictionaries\<close>

lemma keys_dict_modify:
  "map fst (dict_modify d k dflt f) = (if k \<in> fst ` set d then map fst d else map fst d @ [k])"
  by (induction d k dflt f rule: dict_modify.induct) auto

lemma dict_lookup_dict_modify:
  "dict_lookup (dict_modify d k dflt f) k' dflt =
     (if k' = k then f (dict_lookup d k dflt) else dict_lookup d k' dflt)"
  by (induction d k dflt f rule: dict_modify.induct) (auto simp: dict_lookup_def)

lemma set_dict_store: "set (dict_store d k v) \<subseteq> insert (k, v) (set d)"
  by (induction d k v rule: dict_store.induct) auto

lemma dict_lookup_entry:
  "distinct (map fst d) \<Longrightarrow> (k, v) \<in> set d \<Longrightarrow> dict_lookup d k dflt = v"
  by (simp add: dict_lookup_def)

lemma dict_lookup_nonneg:
  "list_all (\<lambda>(m, q). 0 \<le> q) d \<Longrightarrow> (0::real) \<le> dict_lookup d k 0"
  by (auto simp: dict_lookup_def list_all_iff split: option.splits dest: map_of_SomeD)

subsection \<open>The trade log\<close>

lemma bought_in_Nil: "bought_in [] m = 0"
  by (simp add: bought_in_def)

lemma sold_in_Nil: "sold_in [] m = 0"
  by (simp add: sold_in_def)

lemma bought_in_snoc:
  "bought_in (ts @ [t]) m =
     bought_in ts m + (if trade_type t = BUY \<and> trade_mint t = m then trade_sol t else 0)"
  by (simp add: bought_in_def)

lemma sold_in_snoc:
  "sold_in (ts @ [t]) m =
     sold_in ts m + (if trade_type t = SELL \<and> trade_mint t = m then trade_sol t else 0)"
  by (simp add: sold_in_def)

lemma bought_in_nonneg: "\<forall>t \<in> set ts. 0 < trade_sol t \<Longrightarrow> 0 \<le> bought_in ts m"
  unfolding bought_in_def by (induction ts) auto

lemma bought_in_pos_iff:
  assumes "\<forall>t \<in> set ts. 0 < trade_sol t"
  shows "0 < bought_in ts m \<longleftrightarrow> has_buy ts m"
  using assms
proof (induction ts rule: rev_induct)
  case Nil
  then show ?case by (simp add: bought_in_def has_buy_def)
next
  case (snoc t ts)
  then have ih: "0 < bought_in ts m \<longleftrightarrow> has_buy ts m" and pos: "0 < trade_sol t"
    and nn: "0 \<le> bought_in ts m"
    by (auto intro: bought_in_nonneg)
  show ?case
  proof (cases "trade_type t = BUY \<and> trade_mint t = m")
    case True
    then show ?thesis using pos nn by (simp add: bought_in_snoc has_buy_def)
  next
    case False
    then show ?thesis using ih by (auto simp: bought_in_snoc has_buy_def)
  qed
qed

subsection \<open>The replay loop keeps the ledger consistent with the trade log\<close>

lemma ledger_consistent_initial: "ledger_consistent initial_state"
  by (simp add: ledger_consistent_def initial_state_def dict_lookup_def empty_ledger_def
      bought_in_def sold_in_def)

lemma ledger_consistent_process_transfer:
  assumes "ledger_consistent st"
  shows "ledger_consistent (process_transfer wallet sol_change ts transfer st)"
proof -
  from assms have keys: "map fst (token_pnl st) = first_seen (map trade_mint (trades st))"
    and led: "\<And>m. buy_sol (dict_lookup (token_pnl st) m empty_ledger) = bought_in (trades st) m"
             "\<And>m. sell_sol (dict_lookup (token_pnl st) m empty_ledger) = sold_in (trades st) m"
    and pos: "\<forall>t \<in> set (trades st). 0 < trade_sol t"
    by (simp_all add: ledger_consistent_def)
  have mem: "\<And>m. m \<in> fst ` set (token_pnl st) \<longleftrightarrow> m \<in> set (map trade_mint (trades st))"
    using keys by (metis set_map set_first_seen)
  show ?thesis
    unfolding ledger_consistent_def process_transfer_def Let_def
    using keys led pos mem
    by (simp add: keys_dict_modify first_seen_snoc dict_lookup_dict_modify
        bought_in_snoc sold_in_snoc)
qed

lemma ledger_consistent_apply_updates:
  "ledger_consistent st \<Longrightarrow> ledger_consistent (apply_updates wallet us st)"
  unfolding apply_updates_def
  by (induction us arbitrary: st) (auto simp: ledger_consistent_process_transfer)

lemma process_tx_updates:
  "process_tx wallet t st = apply_updates wallet (updates_of wallet [t]) st"
  by (simp add: process_tx_def apply_updates_def updates_of_def fold_map comp_def)

lemma apply_updates_append:
  "apply_updates wallet (us @ vs) st = apply_updates wallet vs (apply_updates wallet us st)"
  by (simp add: apply_updates_def)

lemma replay_txs_None_iff: "replay_txs wallet txs st = None \<longleftrightarrow> MalformedTx \<in> set txs"
  by (induction wallet txs st rule: replay_txs.induct) auto

lemma replay_txs_Some:
  "replay_txs wallet txs st = Some st' \<Longrightarrow>
   st' = apply_updates wallet (updates_of wallet (processed_txs txs)) st"
proof (induction wallet txs st rule: replay_txs.induct)
  case (1 wallet st)
  then show ?case by (simp add: apply_updates_def updates_of_def)
next
  case (2 wallet txs st)
  then show ?case by simp
next
  case (3 wallet t txs st)
  have "updates_of wallet (processed_txs (Tx t # txs)) =
        updates_of wallet [t] @ updates_of wallet (processed_txs txs)"
    by (simp add: updates_of_def)
  with 3 show ?case
    by (simp add: apply_updates_append process_tx_updates)
qed

lemma ledger_consistent_replay_of: "ledger_consistent (replay_of s wallet)"
  unfolding replay_of_def
  by (auto split: activity_reply.splits payload.splits option.splits
      simp: ledger_consistent_initial
      dest!: replay_txs_Some intro: ledger_consistent_apply_updates)


subsection \<open>The loop over the ledger\<close>

lemma per_token_loop_total:
  "snd (snd (per_token_loop items holdings token_reports n tp)) =
     tp + sum_list (map (\<lambda>(m, d). sell_sol d - buy_sol d) items)"
  by (induction items holdings token_reports n tp rule: per_token_loop.induct)
    (auto simp: Let_def)

lemma per_token_loop_wins:
  "fst (snd (per_token_loop items holdings token_reports n tp)) =
     n + length (filter (\<lambda>(m, d). 0 < buy_sol d \<and> 0 < sell_sol d - buy_sol d) items)"
  by (induction items holdings token_reports n tp rule: per_token_loop.induct)
    (auto simp: Let_def)

lemma ledger_entry:
  assumes "ledger_consistent st" and "(m, d) \<in> set (token_pnl st)"
  shows "buy_sol d = bought_in (trades st) m \<and> sell_sol d = sold_in (trades st) m"
proof -
  from assms(1) have "distinct (map fst (token_pnl st))"
    by (simp add: ledger_consistent_def distinct_first_seen)
  then have "dict_lookup (token_pnl st) m empty_ledger = d"
    using assms(2) by (rule dict_lookup_entry)
  with assms(1) show ?thesis
    by (auto simp: ledger_consistent_def)
qed

lemma ledger_total:
  assumes "ledger_consistent st"
  shows "sum_list (map (\<lambda>(m, d). sell_sol d - buy_sol d) (token_pnl st)) =
         (\<Sum>m \<in> set (map trade_mint (trades st)). sold_in (trades st) m - bought_in (trades st) m)"
proof -
  let ?f = "\<lambda>m. sold_in (trades st) m - bought_in (trades st) m"
  have "map (\<lambda>(m, d). sell_sol d - buy_sol d) (token_pnl st) = map (?f \<circ> fst) (token_pnl st)"
    using ledger_entry [OF assms] by (intro map_cong) auto
  then have "sum_list (map (\<lambda>(m, d). sell_sol d - buy_sol d) (token_pnl st)) =
             sum_list (map ?f (first_seen (map trade_mint (trades st))))"
    using assms by (simp add: ledger_consistent_def map_map [symmetric] del: map_map)
  also have "\<dots> = sum ?f (set (first_seen (map trade_mint (trades st))))"
    by (rule sum_list_distinct_conv_sum_set) (rule distinct_first_seen)
  finally show ?thesis by (simp add: set_first_seen)
qed

lemma ledger_wins:
  assumes "ledger_consistent st"
  shows "length (filter (\<lambda>(m, d). 0 < buy_sol d \<and> 0 < sell_sol d - buy_sol d) (token_pnl st)) =
         card {m \<in> set (map trade_mint (trades st)).
                 has_buy (trades st) m \<and> 0 < sold_in (trades st) m - bought_in (trades st) m}"
proof -
  let ?P = "\<lambda>m. has_buy (trades st) m \<and> 0 < sold_in (trades st) m - bought_in (trades st) m"
  from assms have pos: "\<forall>t \<in> set (trades st). 0 < trade_sol t"
    by (simp add: ledger_consistent_def)
  have "filter (\<lambda>(m, d). 0 < buy_sol d \<and> 0 < sell_sol d - buy_sol d) (token_pnl st) =
        filter (?P \<circ> fst) (token_pnl st)"
    using ledger_entry [OF assms] bought_in_pos_iff [OF pos]
    by (intro filter_cong) auto
  then have "length (filter (\<lambda>(m, d). 0 < buy_sol d \<and> 0 < sell_sol d - buy_sol d) (token_pnl st)) =
        length (map fst (filter (?P \<circ> fst) (token_pnl st)))"
    by simp
  also have "\<dots> = length (filter ?P (first_seen (map trade_mint (trades st))))"
    using assms by (simp only: filter_map [symmetric] ledger_consistent_def)
  also have "\<dots> = card ({m. ?P m} \<inter> set (first_seen (map trade_mint (trades st))))"
    by (rule distinct_length_filter) (rule distinct_first_seen)
  also have "{m. ?P m} \<inter> set (first_seen (map trade_mint (trades st))) =
             {m \<in> set (map trade_mint (trades st)). ?P m}"
    by (auto simp: set_first_seen)
  finally show ?thesis .
qed

lemma ledger_positions:
  assumes "ledger_consistent st"
  shows "length (token_pnl st) = card (set (map trade_mint (trades st)))"
proof -
  have "length (token_pnl st) = length (map fst (token_pnl st))" by simp
  also have "\<dots> = length (first_seen (map trade_mint (trades st)))"
    using assms by (simp only: ledger_consistent_def)
  also have "\<dots> = card (set (first_seen (map trade_mint (trades st))))"
    by (simp add: distinct_card distinct_first_seen)
  finally show ?thesis by (simp add: set_first_seen)
qed

subsection \<open>The report\<close>

lemma calculate_wallet_pnl_Some:
  assumes "fst (calculate_wallet_pnl s wallet mints) = Some r"
  shows "build_report (replay_of s wallet) = Some r \<and> trades (replay_of s wallet) \<noteq> []"
  using assms
  by (auto simp: calculate_wallet_pnl_def replay_of_def build_report_def
      split: activity_reply.splits payload.splits option.splits if_splits)


lemma sum_list_filter_split:
  fixes f :: "'a \<Rightarrow> real"
  shows "sum_list (map f xs) =
         sum_list (map f (filter P xs)) + sum_list (map f (filter (\<lambda>x. \<not> P x) xs))"
  by (induction xs) auto

lemma bought_in_no_buy: "\<not> has_buy ts m \<Longrightarrow> bought_in ts m = 0"
  by (simp add: has_buy_def bought_in_def)

lemma traded_total_split:
  "(\<Sum>m \<in> set (map trade_mint ts). sold_in ts m - bought_in ts m) =
   spec_realized_pnl ts +
   sum_list (map (sold_in ts) (filter (\<lambda>m. \<not> has_buy ts m) (first_seen (map trade_mint ts))))"
proof -
  let ?f = "\<lambda>m. sold_in ts m - bought_in ts m"
  let ?xs = "first_seen (map trade_mint ts)"
  have "sum ?f (set (map trade_mint ts)) = sum ?f (set ?xs)"
    by (simp add: set_first_seen)
  also have "\<dots> = sum_list (map ?f ?xs)"
    by (rule sum_list_distinct_conv_sum_set [symmetric]) (rule distinct_first_seen)
  also have "\<dots> = sum_list (map ?f (filter (has_buy ts) ?xs)) +
                   sum_list (map ?f (filter (\<lambda>m. \<not> has_buy ts m) ?xs))"
    by (rule sum_list_filter_split)
  also have "map ?f (filter (\<lambda>m. \<not> has_buy ts m) ?xs) =
             map (sold_in ts) (filter (\<lambda>m. \<not> has_buy ts m) ?xs)"
    by (intro map_cong) (auto simp: bought_in_no_buy)
  finally show ?thesis by (simp add: spec_realized_pnl_def)
qed

lemma build_report_total:
  assumes "build_report st = Some r"
  shows "total_pnl_sol r =
         py_round (sum_list (map (\<lambda>(m, d). sell_sol d - buy_sol d) (token_pnl st))) 4"
proof -
  obtain reps n tp where loop: "per_token_loop (token_pnl st) (current_holdings st) [] 0 0 = (reps, n, tp)"
    by (cases "per_token_loop (token_pnl st) (current_holdings st) [] 0 0") auto
  have "tp = sum_list (map (\<lambda>(m, d). sell_sol d - buy_sol d) (token_pnl st))"
    using per_token_loop_total [of "token_pnl st" "current_holdings st" "[]" 0 0] loop by simp
  with assms loop show ?thesis
    by (auto simp: build_report_def Let_def split: if_splits)
qed

lemma build_report_counts:
  assumes "build_report st = Some r"
  shows "total_positions r = length (token_pnl st)
       \<and> wins r = length (filter (\<lambda>(m, d). 0 < buy_sol d \<and> 0 < sell_sol d - buy_sol d) (token_pnl st))
       \<and> win_rate r = py_round (if 0 < length (token_pnl st)
                                then real (wins r) / real (length (token_pnl st)) else 0) 3"
proof -
  obtain reps n tp where loop: "per_token_loop (token_pnl st) (current_holdings st) [] 0 0 = (reps, n, tp)"
    by (cases "per_token_loop (token_pnl st) (current_holdings st) [] 0 0") auto
  have "n = length (filter (\<lambda>(m, d). 0 < buy_sol d \<and> 0 < sell_sol d - buy_sol d) (token_pnl st))"
    using per_token_loop_wins [of "token_pnl st" "current_holdings st" "[]" 0 0] loop by simp
  with assms loop show ?thesis
    by (auto simp: build_report_def Let_def split: if_splits)
qed

lemma example_report_A: "fst (calculate_wallet_pnl example_session wallet_A []) = Some report_A"
  by code_simp

lemma example_trades_A:
  "trade_log example_session wallet_A =
     [\<lparr>trade_type = BUY, trade_mint = ''T1'', trade_sol = 2, trade_amount = 50, trade_ts = 1\<rparr>,
      \<lparr>trade_type = SELL, trade_mint = ''T1'', trade_sol = 6, trade_amount = 50, trade_ts = 2\<rparr>,
      \<lparr>trade_type = SELL, trade_mint = ''T2'', trade_sol = 1, trade_amount = 10, trade_ts = 3\<rparr>]"
  by code_simp

text \<open>
  Claim C1, as the code has it: when \<^verbatim>\<open>calculate_wallet_pnl\<close> returns a report, its
  total is the sum of sold minus bought over every mint with a classified leg, BUY or SELL,
  rounded to four places. That sum is the sum over the mints with a BUY leg plus the sale
  proceeds of the mints that have only SELL legs.
\<close>

theorem total_pnl_sums_every_traded_token:
  assumes "fst (calculate_wallet_pnl s wallet mints) = Some r"
  shows "total_pnl_sol r =
           py_round (\<Sum>m \<in> set (map trade_mint (trade_log s wallet)).
                       sold_in (trade_log s wallet) m - bought_in (trade_log s wallet) m) 4
       \<and> (\<Sum>m \<in> set (map trade_mint (trade_log s wallet)).
             sold_in (trade_log s wallet) m - bought_in (trade_log s wallet) m) =
           spec_realized_pnl (trade_log s wallet) +
           sum_list (map (sold_in (trade_log s wallet))
             (filter (\<lambda>m. \<not> has_buy (trade_log s wallet) m)
                (first_seen (map trade_mint (trade_log s wallet)))))"
proof -
  from assms have rep: "build_report (replay_of s wallet) = Some r"
    by (simp add: calculate_wallet_pnl_Some)
  have cons: "ledger_consistent (replay_of s wallet)"
    by (rule ledger_consistent_replay_of)
  show ?thesis
    using build_report_total [OF rep] ledger_total [OF cons] traded_total_split
    by (simp add: trade_log_def)
qed

theorem total_pnl_sums_every_traded_token_witness:
  "fst (calculate_wallet_pnl example_session wallet_A []) = Some report_A
   \<and> total_pnl_sol report_A = 5
   \<and> total_pnl_sol report_A =
           py_round (\<Sum>m \<in> set (map trade_mint (trade_log example_session wallet_A)).
                       sold_in (trade_log example_session wallet_A) m
                       - bought_in (trade_log example_session wallet_A) m) 4
   \<and> (\<Sum>m \<in> set (map trade_mint (trade_log example_session wallet_A)).
             sold_in (trade_log example_session wallet_A) m
             - bought_in (trade_log example_session wallet_A) m) =
           spec_realized_pnl (trade_log example_session wallet_A) +
           sum_list (map (sold_in (trade_log example_session wallet_A))
             (filter (\<lambda>m. \<not> has_buy (trade_log example_session wallet_A) m)
                (first_seen (map trade_mint (trade_log example_session wallet_A)))))"
proof -
  have e: "fst (calculate_wallet_pnl example_session wallet_A []) = Some report_A"
    by (rule example_report_A)
  have v: "total_pnl_sol report_A = 5"
    by (simp add: report_A_def)
  from e v total_pnl_sums_every_traded_token [OF e] show ?thesis
    by blast
qed

text \<open>
  Claim C1 as stated fails: \<open>wallet_A\<close> sold T2 without a BUY leg; the reported total is 5,
  the sum over the tokens with a BUY leg is 4.
\<close>

theorem total_pnl_counterexample:
  "map_option total_pnl_sol (fst (calculate_wallet_pnl example_session wallet_A [])) = Some 5
   \<and> spec_realized_pnl (trade_log example_session wallet_A) = 4
   \<and> has_buy (trade_log example_session wallet_A) ''T2'' = False"
  by (simp add: example_report_A report_A_def example_trades_A spec_realized_pnl_def
      has_buy_def sold_in_def bought_in_def)

text \<open>
  Claim C2, as the code has it: the denominator of the win rate is the number of mints with
  a classified leg, BUY or SELL; the number of wins is the number of mints that have a BUY
  leg and sold minus bought above zero; the win rate is their quotient, rounded to three
  places.
\<close>

theorem win_rate_counts_every_traded_token:
  assumes "fst (calculate_wallet_pnl s wallet mints) = Some r"
  shows "total_positions r = card (set (map trade_mint (trade_log s wallet)))
       \<and> 0 < total_positions r
       \<and> wins r = card {m \<in> set (map trade_mint (trade_log s wallet)).
                          has_buy (trade_log s wallet) m
                          \<and> 0 < sold_in (trade_log s wallet) m - bought_in (trade_log s wallet) m}
       \<and> win_rate r = py_round (real (wins r) / real (total_positions r)) 3"
proof -
  from assms have rep: "build_report (replay_of s wallet) = Some r"
    and ne: "trades (replay_of s wallet) \<noteq> []"
    by (simp_all add: calculate_wallet_pnl_Some)
  have cons: "ledger_consistent (replay_of s wallet)"
    by (rule ledger_consistent_replay_of)
  have pos: "0 < length (token_pnl (replay_of s wallet))"
    using ne ledger_positions [OF cons] by (simp add: card_gt_0_iff)
  show ?thesis
    using build_report_counts [OF rep] ledger_positions [OF cons] ledger_wins [OF cons] pos
    by (simp add: trade_log_def)
qed

theorem win_rate_counts_every_traded_token_witness:
  "fst (calculate_wallet_pnl example_session wallet_A []) = Some report_A
   \<and> total_positions report_A = 2 \<and> wins report_A = 1 \<and> win_rate report_A = 1 / 2
   \<and> total_positions report_A = card (set (map trade_mint (trade_log example_session wallet_A)))
   \<and> 0 < total_positions report_A
   \<and> wins report_A = card {m \<in> set (map trade_mint (trade_log example_session wallet_A)).
                          has_buy (trade_log example_session wallet_A) m
                          \<and> 0 < sold_in (trade_log example_session wallet_A) m
                                - bought_in (trade_log example_session wallet_A) m}
   \<and> win_rate report_A = py_round (real (wins report_A) / real (total_positions report_A)) 3"
proof -
  have e: "fst (calculate_wallet_pnl example_session wallet_A []) = Some report_A"
    by (rule example_report_A)
  have v: "total_positions report_A = 2 \<and> wins report_A = 1 \<and> win_rate report_A = 1 / 2"
    by (simp add: report_A_def)
  from e v win_rate_counts_every_traded_token [OF e] show ?thesis
    by blast
qed

text \<open>
  Claim C2 as stated fails: for \<open>wallet_A\<close> only T1 has a BUY leg, yet the denominator is 2
  and the win rate is one half; T2 has a positive realized PnL and is not counted as a win.
\<close>

theorem win_rate_counterexample:
  "map_option total_positions (fst (calculate_wallet_pnl example_session wallet_A [])) = Some 2
   \<and> map_option win_rate (fst (calculate_wallet_pnl example_session wallet_A [])) = Some (1 / 2)
   \<and> map_option wins (fst (calculate_wallet_pnl example_session wallet_A [])) = Some 1
   \<and> spec_win_rate_denominator (trade_log example_session wallet_A) = 1
   \<and> 0 < sold_in (trade_log example_session wallet_A) ''T2''
         - bought_in (trade_log example_session wallet_A) ''T2''"
  by (simp add: example_report_A report_A_def example_trades_A spec_win_rate_denominator_def
      has_buy_def sold_in_def bought_in_def)


subsection \<open>Holdings\<close>

lemma dict_lookup_dict_store:
  "dict_lookup (dict_store d k v) k' dflt = (if k' = k then v else dict_lookup d k' dflt)"
  by (induction d k v rule: dict_store.induct) (auto simp: dict_lookup_def)

lemma list_all_dict_store:
  "list_all P d \<Longrightarrow> P (k, v) \<Longrightarrow> list_all P (dict_store d k v)"
  using set_dict_store [of d k v] by (auto simp: list_all_iff)

lemma holdings_nonneg_process_transfer:
  assumes "holdings_nonneg st" and "0 \<le> tokenAmount transfer"
  shows "holdings_nonneg (process_transfer wallet sol_change ts transfer st)"
proof -
  from assms(1) have all: "list_all (\<lambda>(m, q). 0 \<le> q) (current_holdings st)"
    by (simp add: holdings_nonneg_def)
  have "0 \<le> dict_lookup (current_holdings st) (transfer_mint transfer) 0"
    using all by (rule dict_lookup_nonneg)
  with assms(2) have buy: "0 \<le> dict_lookup (current_holdings st) (transfer_mint transfer) 0
      + tokenAmount transfer"
    by simp
  show ?thesis
    unfolding holdings_nonneg_def process_transfer_def Let_def
    using all buy by (simp add: list_all_dict_store)
qed

lemma holdings_nonneg_apply_updates:
  assumes "holdings_nonneg st" and "\<forall>(sol_change, ts, transfer) \<in> set us. 0 \<le> tokenAmount transfer"
  shows "holdings_nonneg (apply_updates wallet us st)"
  using assms unfolding apply_updates_def
  by (induction us arbitrary: st) (auto simp: holdings_nonneg_process_transfer)

lemma updates_of_amounts:
  assumes "\<forall>t \<in> set txs. \<forall>transfer \<in> set (tokenTransfers t). 0 \<le> tokenAmount transfer"
  shows "\<forall>(sol_change, ts, transfer) \<in> set (updates_of wallet txs). 0 \<le> tokenAmount transfer"
  using assms by (auto simp: updates_of_def)

lemma sell_clamps:
  assumes "transfer_mint transfer \<noteq> []" and "tokenAmount transfer \<noteq> 0"
    and "\<not> (toUserAccount transfer = wallet \<and> sol_change < 0)"
    and "fromUserAccount transfer = wallet" and "0 < sol_change"
  shows "dict_lookup (current_holdings (process_transfer wallet sol_change ts transfer st))
           (transfer_mint transfer) 0 =
         max 0 (dict_lookup (current_holdings st) (transfer_mint transfer) 0 - tokenAmount transfer)"
  using assms by (simp add: process_transfer_def Let_def dict_lookup_dict_store)

lemma example_replay_A:
  "replay_txs wallet_A activity_A initial_state =
     Some \<lparr>trades =
              [\<lparr>trade_type = BUY, trade_mint = ''T1'', trade_sol = 2, trade_amount = 50, trade_ts = 1\<rparr>,
               \<lparr>trade_type = SELL, trade_mint = ''T1'', trade_sol = 6, trade_amount = 50, trade_ts = 2\<rparr>,
               \<lparr>trade_type = SELL, trade_mint = ''T2'', trade_sol = 1, trade_amount = 10, trade_ts = 3\<rparr>],
            token_pnl =
              [(''T1'', \<lparr>buy_sol = 2, sell_sol = 6, buy_amount = 50, sell_amount = 50\<rparr>),
               (''T2'', \<lparr>buy_sol = 0, sell_sol = 1, buy_amount = 0, sell_amount = 10\<rparr>)],
            current_holdings = [(''T1'', 0), (''T2'', 0)]\<rparr>"
  by code_simp

text \<open>
  Claim C8, as the code has it. If no token transfer of the processed transactions has a
  negative \<^verbatim>\<open>tokenAmount\<close>, then after every update of the replay (every prefix of the
  sequence of updates) and in the state in which the loop ends, every tracked holding is at
  least zero. Whatever the amounts are, a SELL update sets the holding of its mint to the
  previous holding minus the amount, clamped at zero.
\<close>

theorem holdings_never_negative:
  assumes "\<forall>t \<in> set (processed_txs txs). \<forall>transfer \<in> set (tokenTransfers t).
             0 \<le> tokenAmount transfer"
  shows "(\<forall>n. holdings_nonneg
              (apply_updates wallet (take n (updates_of wallet (processed_txs txs))) initial_state))
       \<and> (\<forall>st. replay_txs wallet txs initial_state = Some st \<longrightarrow> holdings_nonneg st)
       \<and> (\<forall>st sol_change ts transfer.
             transfer_mint transfer \<noteq> [] \<and> tokenAmount transfer \<noteq> 0
             \<and> \<not> (toUserAccount transfer = wallet \<and> sol_change < 0)
             \<and> fromUserAccount transfer = wallet \<and> 0 < sol_change \<longrightarrow>
             dict_lookup (current_holdings (process_transfer wallet sol_change ts transfer st))
               (transfer_mint transfer) 0 =
             max 0 (dict_lookup (current_holdings st) (transfer_mint transfer) 0
                    - tokenAmount transfer))"
proof -
  have init: "holdings_nonneg initial_state"
    by (simp add: holdings_nonneg_def initial_state_def)
  have amounts: "\<forall>(sol_change, ts, transfer) \<in> set (updates_of wallet (processed_txs txs)).
      0 \<le> tokenAmount transfer"
    using assms by (rule updates_of_amounts)
  have prefix: "holdings_nonneg
      (apply_updates wallet (take n (updates_of wallet (processed_txs txs))) initial_state)" for n
  proof (rule holdings_nonneg_apply_updates [OF init])
    show "\<forall>(sol_change, ts, transfer) \<in> set (take n (updates_of wallet (processed_txs txs))).
        0 \<le> tokenAmount transfer"
      using amounts by (auto dest: in_set_takeD)
  qed
  have final: "holdings_nonneg st" if "replay_txs wallet txs initial_state = Some st" for st
    using replay_txs_Some [OF that] holdings_nonneg_apply_updates [OF init amounts] by simp
  show ?thesis
    using prefix final sell_clamps by blast
qed

theorem holdings_never_negative_witness:
  "list_all (\<lambda>t. list_all (\<lambda>transfer. 0 \<le> tokenAmount transfer) (tokenTransfers t))
     (processed_txs activity_A)
   \<and> map_option current_holdings (replay_txs wallet_A activity_A initial_state)
       = Some [(''T1'', 0), (''T2'', 0)]
   \<and> holdings_nonneg (the (replay_txs wallet_A activity_A initial_state))
   \<and> (\<forall>n. holdings_nonneg
          (apply_updates wallet_A (take n (updates_of wallet_A (processed_txs activity_A)))
             initial_state))"
proof -
  have h: "list_all (\<lambda>t. list_all (\<lambda>transfer. 0 \<le> tokenAmount transfer) (tokenTransfers t))
     (processed_txs activity_A)"
    by (simp add: activity_A_def buy_tx_def sell_tx_def)
  then have h': "\<forall>t \<in> set (processed_txs activity_A). \<forall>transfer \<in> set (tokenTransfers t).
             0 \<le> tokenAmount transfer"
    by (simp add: list_all_iff)
  have e: "replay_txs wallet_A activity_A initial_state = Some (the (replay_txs wallet_A activity_A initial_state))"
    by (simp add: example_replay_A)
  have c: "map_option current_holdings (replay_txs wallet_A activity_A initial_state)
       = Some [(''T1'', 0), (''T2'', 0)]"
    by (simp add: example_replay_A)
  from h c e holdings_never_negative [OF h', of wallet_A] show ?thesis
    by blast
qed

text \<open>
  Claim C8 as stated fails: a BUY leg whose \<^verbatim>\<open>tokenAmount\<close> is negative leaves a
  negative holding.
\<close>

theorem holdings_counterexample:
  "map_option current_holdings
     (replay_txs wallet_A [buy_tx 1 wallet_A 2000000000 ''T1'' (- 5)] initial_state)
   = Some [(''T1'', - 5)]"
  by code_simp


subsection \<open>Failures of the provider\<close>

lemma fst_gather: "fst (gather f xs) = map (\<lambda>x. fst (f x)) xs"
  by (simp add: gather_def)

lemma snd_gather: "snd (gather f xs) = concat (map (\<lambda>x. snd (f x)) xs)"
  by (simp add: gather_def)

lemma calculate_wallet_pnl_cong:
  "transactions s' wallet = transactions s wallet \<Longrightarrow>
   calculate_wallet_pnl s' wallet mints = calculate_wallet_pnl s wallet mints'"
  by (simp add: calculate_wallet_pnl_def)

lemma calculate_wallet_pnl_None_iff:
  "fst (calculate_wallet_pnl s wallet mints) = None \<longleftrightarrow>
   provider_failure (transactions s wallet) \<or> trade_log s wallet = []"
proof (cases "transactions s wallet")
  case ActivityRaised
  then show ?thesis
    by (simp add: calculate_wallet_pnl_def provider_failure_def)
next
  case (ActivityReply status body)
  show ?thesis
  proof (cases body)
    case InvalidJson
    with ActivityReply show ?thesis
      by (simp add: calculate_wallet_pnl_def provider_failure_def)
  next
    case NotAList
    with ActivityReply show ?thesis
      by (simp add: calculate_wallet_pnl_def provider_failure_def)
  next
    case (TxList txs)
    show ?thesis
    proof (cases "replay_txs wallet txs initial_state")
      case None
      then have "MalformedTx \<in> set txs"
        by (simp add: replay_txs_None_iff)
      with ActivityReply TxList None show ?thesis
        by (simp add: calculate_wallet_pnl_def provider_failure_def)
    next
      case (Some st)
      then have wf: "MalformedTx \<notin> set txs"
        using replay_txs_None_iff [of wallet txs initial_state] by simp
      have log: "trade_log s wallet = trades st"
        using ActivityReply TxList Some by (simp add: trade_log_def replay_of_def)
      have empty: "txs = [] \<Longrightarrow> trades st = []"
        using Some by (auto simp: initial_state_def)
      have rep: "build_report st = None \<longleftrightarrow> trades st = []"
        by (simp add: build_report_def Let_def split_def)
      show ?thesis
        using ActivityReply TxList Some wf log empty rep
        by (auto simp: calculate_wallet_pnl_def provider_failure_def)
    qed
  qed
qed

lemma get_account_owners_transactions:
  "get_account_owners (s\<lparr>transactions := f\<rparr>) accounts = get_account_owners s accounts"
  by (simp add: get_account_owners_def)

lemma get_top_holders_transactions:
  "get_top_holders (s\<lparr>transactions := f\<rparr>) mint = get_top_holders s mint"
  by (simp add: get_top_holders_def get_account_owners_transactions Let_def
      split: largest_reply.splits)

lemma common_of_transactions: "common_of (s\<lparr>transactions := f\<rparr>) mints = common_of s mints"
  by (simp add: common_of_def holder_lists_of_def get_top_holders_transactions)

text \<open>
  Claim C6. The function returns the null result exactly when the provider fails for the
  wallet (the request raises, the status is not 200, the body is not a JSON list, an
  element is malformed) or the replay classifies no trade. If the provider fails for wallet
  \<open>w2\<close>, the batch still returns one result per wallet: null for \<open>w2\<close>, and for every
  other wallet the result it has when the request for \<open>w2\<close> succeeds; the qualified
  entries that step 4 builds for the other wallets do not change either.
\<close>

theorem provider_failure_is_isolated:
  assumes "provider_failure reply"
  shows "(\<forall>w. fst (calculate_wallet_pnl s w mints) = None \<longleftrightarrow>
              provider_failure (transactions s w) \<or> trade_log s w = [])
       \<and> (let s' = s\<lparr>transactions := (transactions s)(w2 := reply)\<rparr>
          in fst (calculate_wallet_pnl s' w2 mints) = None
           \<and> fst (gather (\<lambda>w. calculate_wallet_pnl s' w mints) ws) =
               map (\<lambda>w. if w = w2 then None else fst (calculate_wallet_pnl s w mints)) ws
           \<and> (\<forall>w. qualified_entry s' ms mwr mpnl w =
                    (if w = w2 then [] else qualified_entry s ms mwr mpnl w)))"
proof -
  let ?s' = "s\<lparr>transactions := (transactions s)(w2 := reply)\<rparr>"
  have failing: "fst (calculate_wallet_pnl ?s' w2 xs) = None" for xs
    using assms by (simp add: calculate_wallet_pnl_None_iff)
  have others: "calculate_wallet_pnl ?s' w xs = calculate_wallet_pnl s w xs" if "w \<noteq> w2" for w xs
    using that by (intro calculate_wallet_pnl_cong) simp
  have batch: "fst (gather (\<lambda>w. calculate_wallet_pnl ?s' w mints) ws) =
      map (\<lambda>w. if w = w2 then None else fst (calculate_wallet_pnl s w mints)) ws"
    unfolding fst_gather using failing others by (intro map_cong) auto
  have entries: "qualified_entry ?s' ms mwr mpnl w =
      (if w = w2 then [] else qualified_entry s ms mwr mpnl w)" for w
    using failing [of "analysed_mints ms"] others [of w "analysed_mints ms"]
    by (simp add: qualified_entry_def common_of_transactions split: option.splits)
  show ?thesis
    unfolding Let_def
    using calculate_wallet_pnl_None_iff failing batch entries by blast
qed

lemma example_report_C:
  "fst (calculate_wallet_pnl example_session wallet_C [''T1'', ''T2'']) = Some report_C"
  by code_simp

lemma example_report_B:
  "fst (calculate_wallet_pnl example_session wallet_B [''T1'', ''T2'']) = None"
  by code_simp

theorem provider_failure_is_isolated_witness:
  "provider_failure ActivityRaised
   \<and> fst (calculate_wallet_pnl
       (example_session\<lparr>transactions := (transactions example_session)(wallet_A := ActivityRaised)\<rparr>)
       wallet_A [''T1'', ''T2'']) = None
   \<and> fst (gather (\<lambda>w. calculate_wallet_pnl
       (example_session\<lparr>transactions := (transactions example_session)(wallet_A := ActivityRaised)\<rparr>)
       w [''T1'', ''T2'']) [wallet_A, wallet_B, wallet_C]) = [None, None, Some report_C]"
proof -
  have h: "provider_failure ActivityRaised"
    by (simp add: provider_failure_def)
  have d: "wallet_B \<noteq> wallet_A \<and> wallet_C \<noteq> wallet_A"
    by (simp add: wallet_A_def wallet_B_def wallet_C_def)
  from provider_failure_is_isolated [OF h, of example_session "[''T1'', ''T2'']" wallet_A
      "[wallet_A, wallet_B, wallet_C]"]
  have "fst (calculate_wallet_pnl
       (example_session\<lparr>transactions := (transactions example_session)(wallet_A := ActivityRaised)\<rparr>)
       wallet_A [''T1'', ''T2'']) = None"
    and "fst (gather (\<lambda>w. calculate_wallet_pnl
       (example_session\<lparr>transactions := (transactions example_session)(wallet_A := ActivityRaised)\<rparr>)
       w [''T1'', ''T2'']) [wallet_A, wallet_B, wallet_C]) =
       map (\<lambda>w. if w = wallet_A then None
                 else fst (calculate_wallet_pnl example_session w [''T1'', ''T2'']))
         [wallet_A, wallet_B, wallet_C]"
    unfolding Let_def by blast+
  with h d show ?thesis
    by (simp add: example_report_B example_report_C)
qed


subsection \<open>The entry point\<close>

lemma filter_loop_concat:
  "filter_loop common mwr mpnl zs acc =
     acc @ concat (map (\<lambda>(wallet, res). case res of
                            None \<Rightarrow> []
                          | Some pnl_data \<Rightarrow>
                              if mwr \<le> win_rate pnl_data \<and> mpnl \<le> total_pnl_sol pnl_data
                              then [pnl_report.extend pnl_data
                                      (qualified_wallet.fields wallet (dict_get common wallet))]
                              else []) zs)"
  by (induction common mwr mpnl zs acc rule: filter_loop.induct) simp_all

lemma step4_lookup_defined:
  assumes "wallet \<in> set (take 30 (map fst common))"
  shows "\<exists>held. map_of common wallet = Some held \<and> dict_get common wallet = held"
proof -
  from assms have "wallet \<in> fst ` set common"
    by (auto dest: in_set_takeD)
  then obtain held where "map_of common wallet = Some held"
    by (metis map_of_eq_None_iff not_None_eq)
  then show ?thesis
    by (simp add: dict_get_def)
qed

lemma zip_map_same: "zip xs (map f xs) = map (\<lambda>x. (x, f x)) xs"
  by (induction xs) simp_all

lemma analysed_mints_eq:
  "(if 5 < length mints then take 5 mints else mints) = analysed_mints mints"
  by (simp add: analysed_mints_def)

lemma step4_entries:
  "filter_loop (common_of s mints) mwr mpnl
     (zip ws (map (\<lambda>w. fst (calculate_wallet_pnl s w (analysed_mints mints))) ws)) [] =
   concat (map (qualified_entry s mints mwr mpnl) ws)"
proof -
  have "(\<lambda>x. case (x, fst (calculate_wallet_pnl s x (analysed_mints mints))) of
               (wallet, res) \<Rightarrow> (case res of
                  None \<Rightarrow> []
                | Some pnl_data \<Rightarrow>
                    if mwr \<le> win_rate pnl_data \<and> mpnl \<le> total_pnl_sol pnl_data
                    then [pnl_report.extend pnl_data
                            (qualified_wallet.fields wallet (dict_get (common_of s mints) wallet))]
                    else [])) = qualified_entry s mints mwr mpnl"
    by (rule ext) (simp add: qualified_entry_def)
  then show ?thesis
    by (simp add: filter_loop_concat zip_map_same comp_def)
qed

lemma find_smart_money_short:
  "length mints < 2 \<Longrightarrow>
   find_smart_money s mints mwr mpnl =
     (ErrorResult ''Please provide at least 2 contract addresses.'' None, [])"
  by (simp add: find_smart_money_def)

lemma find_smart_money_empty:
  assumes "2 \<le> length mints" and "common_of s mints = []"
  shows "find_smart_money s mints mwr mpnl =
     (ErrorResult ''No common wallets found across these tokens. Try tokens with more overlap.''
        (Some (map length (holder_lists_of s mints))),
      concat (map (\<lambda>mint. snd (get_top_holders s mint)) (analysed_mints mints)))"
proof -
  from assms(2) have "find_intersection
      (map (\<lambda>x. fst (get_top_holders s x)) (analysed_mints mints)) (analysed_mints mints) 2 = []"
    by (simp add: common_of_def holder_lists_of_def)
  with assms(1) show ?thesis
    by (simp add: find_smart_money_def analysed_mints_eq gather_def Let_def holder_lists_of_def)
qed

lemma find_smart_money_report:
  assumes "2 \<le> length mints" and "common_of s mints \<noteq> []"
  shows "find_smart_money s mints mwr mpnl =
     (Report \<lparr>mints_analyzed = analysed_mints mints,
              total_common_wallets = length (common_of s mints),
              qualified_wallets =
                take 10 (sorted_reverse total_pnl_sol
                  (concat (map (qualified_entry s mints mwr mpnl)
                     (take 30 (map fst (common_of s mints)))))),
              min_win_rate = mwr,
              min_pnl_sol = mpnl\<rparr>,
      concat (map (\<lambda>mint. snd (get_top_holders s mint)) (analysed_mints mints)) @
      map TransactionsRequest (take 30 (map fst (common_of s mints))))"
proof -
  have common: "find_intersection
      (map (\<lambda>x. fst (get_top_holders s x)) (analysed_mints mints)) (analysed_mints mints) 2 =
      common_of s mints"
    by (simp add: common_of_def holder_lists_of_def)
  have reqs: "concat (map (\<lambda>x. snd (calculate_wallet_pnl s x (analysed_mints mints))) ws) =
      map TransactionsRequest ws" for ws
    by (induction ws) (simp_all add: calculate_wallet_pnl_def)
  show ?thesis
    using assms
    by (simp add: find_smart_money_def analysed_mints_eq gather_def Let_def common
        step4_entries reqs)
qed


lemma qualified_entry_member:
  assumes "q \<in> set (qualified_entry s mints mwr mpnl w)"
  shows "report_wallet q = w \<and> mwr \<le> win_rate q \<and> mpnl \<le> total_pnl_sol q
       \<and> tokens_held q = dict_get (common_of s mints) w
       \<and> fst (calculate_wallet_pnl s w (analysed_mints mints)) = Some (pnl_report.truncate q)"
proof (cases "fst (calculate_wallet_pnl s w (analysed_mints mints))")
  case None
  with assms show ?thesis by (simp add: qualified_entry_def)
next
  case (Some r)
  with assms have pass: "mwr \<le> win_rate r \<and> mpnl \<le> total_pnl_sol r"
    and q: "q = pnl_report.extend r
                  (qualified_wallet.fields w (dict_get (common_of s mints) w))"
    by (auto simp: qualified_entry_def split: if_splits)
  have "pnl_report.truncate q = r"
    unfolding q by (cases r) (simp add: pnl_report.defs qualified_wallet.defs)
  with pass Some show ?thesis
    unfolding q by (simp add: pnl_report.defs qualified_wallet.defs)
qed

lemma find_smart_money_Report:
  assumes "fst (find_smart_money s mints mwr mpnl) = Report rep"
  shows "2 \<le> length mints \<and> common_of s mints \<noteq> []"
proof -
  have "2 \<le> length mints"
    using assms find_smart_money_short [of mints s mwr mpnl] by (cases "length mints < 2") auto
  moreover from this have "common_of s mints \<noteq> []"
    using assms find_smart_money_empty [of mints s mwr mpnl] by (cases "common_of s mints = []") auto
  ultimately show ?thesis by simp
qed

text \<open>
  Claim C5: a token list with fewer than two entries is answered with the input error, and
  the list of requests issued is empty.
\<close>

theorem too_few_tokens_rejected_without_fetch:
  assumes "length mints < 2"
  shows "fst (find_smart_money s mints mwr mpnl) =
           ErrorResult ''Please provide at least 2 contract addresses.'' None
       \<and> snd (find_smart_money s mints mwr mpnl) = []"
  using assms by (simp add: find_smart_money_short)

theorem too_few_tokens_rejected_without_fetch_witness:
  "length [''T1''] < 2
   \<and> fst (find_smart_money example_session [''T1''] (3 / 5) 10) =
           ErrorResult ''Please provide at least 2 contract addresses.'' None
   \<and> snd (find_smart_money example_session [''T1''] (3 / 5) 10) = []"
proof -
  have h: "length [''T1''] < 2" by simp
  from h too_few_tokens_rejected_without_fetch [OF h] show ?thesis
    by blast
qed

text \<open>
  Claim C4. When \<^verbatim>\<open>find_smart_money\<close> returns a report, let \<open>cands\<close> be the entries
  that step 4 builds, in the order of the analysed wallets: one for each wallet whose PnL
  report is not null and has win rate and total PnL at least the thresholds. The
  qualified-wallet list is the first ten elements of \<open>cands\<close> sorted by total PnL; the
  sorted list is descending, keeps entries with equal total PnL in their order in \<open>cands\<close>,
  and every entry in it meets both thresholds and carries the non-null report of its wallet.
\<close>

theorem qualified_wallets_filtered_sorted_truncated:
  assumes "fst (find_smart_money s mints mwr mpnl) = Report rep"
  shows "let cands = concat (map (qualified_entry s mints mwr mpnl)
                        (take 30 (map fst (common_of s mints))));
             ranked = sorted_reverse total_pnl_sol cands
         in qualified_wallets rep = take 10 ranked
          \<and> length (qualified_wallets rep) \<le> 10
          \<and> sorted (rev (map total_pnl_sol ranked))
          \<and> (\<forall>k. filter (\<lambda>q. total_pnl_sol q = k) ranked = filter (\<lambda>q. total_pnl_sol q = k) cands)
          \<and> (\<forall>q \<in> set ranked.
                mwr \<le> win_rate q \<and> mpnl \<le> total_pnl_sol q
                \<and> report_wallet q \<in> set (take 30 (map fst (common_of s mints)))
                \<and> fst (calculate_wallet_pnl s (report_wallet q) (analysed_mints mints))
                    = Some (pnl_report.truncate q))"
proof -
  let ?cands = "concat (map (qualified_entry s mints mwr mpnl)
                        (take 30 (map fst (common_of s mints))))"
  let ?ranked = "sorted_reverse total_pnl_sol ?cands"
  from find_smart_money_Report [OF assms]
  have "find_smart_money s mints mwr mpnl =
     (Report \<lparr>mints_analyzed = analysed_mints mints,
              total_common_wallets = length (common_of s mints),
              qualified_wallets = take 10 ?ranked,
              min_win_rate = mwr,
              min_pnl_sol = mpnl\<rparr>,
      concat (map (\<lambda>mint. snd (get_top_holders s mint)) (analysed_mints mints)) @
      map TransactionsRequest (take 30 (map fst (common_of s mints))))"
    by (intro find_smart_money_report) simp_all
  with assms have top: "qualified_wallets rep = take 10 ?ranked"
    by auto
  then have len: "length (qualified_wallets rep) \<le> 10"
    by simp
  have desc: "sorted (rev (map total_pnl_sol ?ranked))"
    by (rule sorted_reverse_descending)
  have stable: "filter (\<lambda>q. total_pnl_sol q = k) ?ranked = filter (\<lambda>q. total_pnl_sol q = k) ?cands"
    for k by (rule sorted_reverse_stable)
  have members: "mwr \<le> win_rate q \<and> mpnl \<le> total_pnl_sol q
        \<and> report_wallet q \<in> set (take 30 (map fst (common_of s mints)))
        \<and> fst (calculate_wallet_pnl s (report_wallet q) (analysed_mints mints))
            = Some (pnl_report.truncate q)" if "q \<in> set ?ranked" for q
  proof -
    from that obtain w where w: "w \<in> set (take 30 (map fst (common_of s mints)))"
      and q: "q \<in> set (qualified_entry s mints mwr mpnl w)"
      by (auto simp: set_sorted_reverse)
    from qualified_entry_member [OF q] w show ?thesis by simp
  qed
  show ?thesis
    unfolding Let_def using top len desc stable members by blast
qed


lemma example_find_smart_money:
  "fst (find_smart_money example_session [''T1'', ''T2''] (1 / 2) 3) = Report example_report"
  by code_simp

lemma example_ranking:
  "map report_wallet (qualified_wallets example_report) = [wallet_C, wallet_A]
   \<and> map total_pnl_sol (qualified_wallets example_report) = [12, 5]"
  by code_simp

theorem qualified_wallets_filtered_sorted_truncated_witness:
  "fst (find_smart_money example_session [''T1'', ''T2''] (1 / 2) 3) = Report example_report
   \<and> map report_wallet (qualified_wallets example_report) = [wallet_C, wallet_A]
   \<and> map total_pnl_sol (qualified_wallets example_report) = [12, 5]
   \<and> (let cands = concat (map (qualified_entry example_session [''T1'', ''T2''] (1 / 2) 3)
                        (take 30 (map fst (common_of example_session [''T1'', ''T2'']))));
           ranked = sorted_reverse total_pnl_sol cands
       in qualified_wallets example_report = take 10 ranked
          \<and> length (qualified_wallets example_report) \<le> 10
          \<and> sorted (rev (map total_pnl_sol ranked))
          \<and> (\<forall>k. filter (\<lambda>q. total_pnl_sol q = k) ranked = filter (\<lambda>q. total_pnl_sol q = k) cands)
          \<and> (\<forall>q \<in> set ranked.
                1 / 2 \<le> win_rate q \<and> 3 \<le> total_pnl_sol q
                \<and> report_wallet q \<in> set (take 30 (map fst (common_of example_session [''T1'', ''T2''])))
                \<and> fst (calculate_wallet_pnl example_session (report_wallet q)
                        (analysed_mints [''T1'', ''T2'']))
                    = Some (pnl_report.truncate q)))"
proof -
  have e: "fst (find_smart_money example_session [''T1'', ''T2''] (1 / 2) 3) = Report example_report"
    by (rule example_find_smart_money)
  from e example_ranking qualified_wallets_filtered_sorted_truncated [OF e] show ?thesis
    by blast
qed

subsection \<open>The limits on wallets and mints\<close>

lemma holder_requests_no_transactions:
  "filter is_transactions_request (snd (get_top_holders s mint)) = []"
  by (simp add: get_top_holders_def get_account_owners_def is_transactions_request_def Let_def
      split: largest_reply.splits)

lemma holder_requests_no_transactions_concat:
  "filter is_transactions_request (concat (map (\<lambda>mint. snd (get_top_holders s mint)) ms)) = []"
  by (induction ms) (simp_all add: holder_requests_no_transactions)

lemma transactions_requests_kept:
  "filter is_transactions_request (map TransactionsRequest ws) = map TransactionsRequest ws"
  by (induction ws) (simp_all add: is_transactions_request_def)

lemma holder_requests_member:
  "TransactionsRequest w \<notin> set (concat (map (\<lambda>mint. snd (get_top_holders s mint)) ms))"
proof
  assume "TransactionsRequest w \<in> set (concat (map (\<lambda>mint. snd (get_top_holders s mint)) ms))"
  then have "TransactionsRequest w \<in> set (filter is_transactions_request
      (concat (map (\<lambda>mint. snd (get_top_holders s mint)) ms)))"
    by (simp add: is_transactions_request_def)
  then show False
    by (simp add: holder_requests_no_transactions_concat)
qed

lemma common_of_distinct: "distinct (map fst (common_of s mints))"
  by (simp add: common_of_def find_intersection_distinct)

text \<open>
  Claim C9: when at least two mints are given and the intersection has more than 30
  wallets, the result is a report; its counter of common wallets is the size of the whole
  intersection; the activity requests issued are those for the first 30 wallets of the
  intersection, in its order; every qualified wallet is one of these 30; and a wallet
  beyond the first 30 is neither requested nor listed as qualified.
\<close>

theorem only_first_thirty_wallets_analysed:
  assumes "2 \<le> length mints" and "30 < length (common_of s mints)"
  shows "case fst (find_smart_money s mints mwr mpnl) of
           ErrorResult msg counts \<Rightarrow> False
         | Report rep \<Rightarrow>
             total_common_wallets rep = length (common_of s mints)
           \<and> filter is_transactions_request (snd (find_smart_money s mints mwr mpnl)) =
               map TransactionsRequest (take 30 (map fst (common_of s mints)))
           \<and> (\<forall>q \<in> set (qualified_wallets rep).
                 report_wallet q \<in> set (take 30 (map fst (common_of s mints))))
           \<and> (\<forall>w \<in> set (drop 30 (map fst (common_of s mints))).
                 w \<notin> report_wallet ` set (qualified_wallets rep)
               \<and> TransactionsRequest w \<notin> set (snd (find_smart_money s mints mwr mpnl)))"
proof -
  let ?keys = "map fst (common_of s mints)"
  let ?cands = "concat (map (qualified_entry s mints mwr mpnl) (take 30 ?keys))"
  let ?rep = "\<lparr>mints_analyzed = analysed_mints mints,
              total_common_wallets = length (common_of s mints),
              qualified_wallets = take 10 (sorted_reverse total_pnl_sol ?cands),
              min_win_rate = mwr,
              min_pnl_sol = mpnl\<rparr>"
  from assms(2) have ne: "common_of s mints \<noteq> []" by auto
  have run: "find_smart_money s mints mwr mpnl =
     (Report ?rep,
      concat (map (\<lambda>mint. snd (get_top_holders s mint)) (analysed_mints mints)) @
      map TransactionsRequest (take 30 ?keys))"
    using assms(1) ne by (rule find_smart_money_report)
  have reqs: "filter is_transactions_request (snd (find_smart_money s mints mwr mpnl)) =
      map TransactionsRequest (take 30 ?keys)"
    by (simp add: run holder_requests_no_transactions_concat transactions_requests_kept)
  have listed: "report_wallet q \<in> set (take 30 ?keys)" if "q \<in> set (qualified_wallets ?rep)" for q
  proof -
    from that have "q \<in> set (sorted_reverse total_pnl_sol ?cands)"
      by (auto dest: in_set_takeD)
    then obtain w where "w \<in> set (take 30 ?keys)" "q \<in> set (qualified_entry s mints mwr mpnl w)"
      by (auto simp: set_sorted_reverse)
    with qualified_entry_member show ?thesis by blast
  qed
  have disj: "w \<notin> set (take 30 ?keys)" if "w \<in> set (drop 30 ?keys)" for w
    using that set_take_disj_set_drop_if_distinct [OF common_of_distinct, of 30 30 s mints]
    by auto
  have beyond: "w \<notin> report_wallet ` set (qualified_wallets ?rep)
      \<and> TransactionsRequest w \<notin> set (snd (find_smart_money s mints mwr mpnl))"
    if "w \<in> set (drop 30 ?keys)" for w
  proof -
    have "w \<notin> report_wallet ` set (qualified_wallets ?rep)"
      using listed disj [OF that] by blast
    moreover have "TransactionsRequest w \<notin> set (snd (find_smart_money s mints mwr mpnl))"
      using disj [OF that] holder_requests_member [of w s "analysed_mints mints"]
      by (auto simp: run)
    ultimately show ?thesis by simp
  qed
  have "total_common_wallets ?rep = length (common_of s mints)" by simp
  with reqs listed beyond show ?thesis
    unfolding run fst_conv result.case by blast
qed


lemma crowded_common:
  "common_of crowded_session [''T1'', ''T2''] = map (\<lambda>w. (w, [''T1'', ''T2''])) many_wallets"
  by code_simp

lemma crowded_last: "drop 30 many_wallets = [replicate 62 CHR ''W'']"
  by code_simp

lemma crowded_last_qualifies:
  "map report_wallet
     (qualified_entry crowded_session [''T1'', ''T2''] (3 / 5) 10 (replicate 62 CHR ''W'')) =
   [replicate 62 CHR ''W'']"
  by code_simp

lemma crowded_result:
  "fst (find_smart_money crowded_session [''T1'', ''T2''] (3 / 5) 10) =
     Report \<lparr>mints_analyzed = [''T1'', ''T2''], total_common_wallets = 31,
             qualified_wallets = [], min_win_rate = 3 / 5, min_pnl_sol = 10\<rparr>"
  by code_simp

theorem only_first_thirty_wallets_analysed_witness:
  "2 \<le> length [''T1'', ''T2'']
   \<and> 30 < length (common_of crowded_session [''T1'', ''T2''])
   \<and> drop 30 (map fst (common_of crowded_session [''T1'', ''T2''])) = [replicate 62 CHR ''W'']
   \<and> map report_wallet
        (qualified_entry crowded_session [''T1'', ''T2''] (3 / 5) 10 (replicate 62 CHR ''W'')) =
      [replicate 62 CHR ''W'']
   \<and> fst (find_smart_money crowded_session [''T1'', ''T2''] (3 / 5) 10) =
       Report \<lparr>mints_analyzed = [''T1'', ''T2''], total_common_wallets = 31,
               qualified_wallets = [], min_win_rate = 3 / 5, min_pnl_sol = 10\<rparr>
   \<and> (case fst (find_smart_money crowded_session [''T1'', ''T2''] (3 / 5) 10) of
           ErrorResult msg counts \<Rightarrow> False
         | Report rep \<Rightarrow>
             total_common_wallets rep = length (common_of crowded_session [''T1'', ''T2''])
           \<and> filter is_transactions_request
                (snd (find_smart_money crowded_session [''T1'', ''T2''] (3 / 5) 10)) =
               map TransactionsRequest
                 (take 30 (map fst (common_of crowded_session [''T1'', ''T2''])))
           \<and> (\<forall>q \<in> set (qualified_wallets rep).
                 report_wallet q \<in> set (take 30 (map fst (common_of crowded_session [''T1'', ''T2'']))))
           \<and> (\<forall>w \<in> set (drop 30 (map fst (common_of crowded_session [''T1'', ''T2'']))).
                 w \<notin> report_wallet ` set (qualified_wallets rep)
               \<and> TransactionsRequest w \<notin>
                   set (snd (find_smart_money crowded_session [''T1'', ''T2''] (3 / 5) 10))))"
proof -
  have h1: "2 \<le> length [''T1'', ''T2'']" by simp
  have h2: "30 < length (common_of crowded_session [''T1'', ''T2''])"
    by (simp add: crowded_common many_wallets_def)
  have l: "drop 30 (map fst (common_of crowded_session [''T1'', ''T2''])) = [replicate 62 CHR ''W'']"
    by (simp add: crowded_common comp_def crowded_last)
  from h1 h2 l crowded_last_qualifies crowded_result
    only_first_thirty_wallets_analysed [OF h1 h2, of "3 / 5" 10]
  show ?thesis by blast
qed

lemma analysed_mints_take: "analysed_mints (take 5 mints) = analysed_mints mints"
  by (simp add: analysed_mints_def)

lemma common_of_take: "common_of s (take 5 mints) = common_of s mints"
  by (simp add: common_of_def holder_lists_of_def analysed_mints_take)

lemma qualified_entry_take:
  "qualified_entry s (take 5 mints) mwr mpnl = qualified_entry s mints mwr mpnl"
  by (rule ext) (simp add: qualified_entry_def analysed_mints_take common_of_take
      split: option.splits)

text \<open>
  Claim C10, as the code has it: a token list with more than five entries is never
  answered with the input error; the result and the requests are those of the call on
  the first five mints. If these have common wallets the result is a report whose
  \<^verbatim>\<open>mints_analyzed\<close> is the list of the first five; if they have none it is the error
  result for no common wallets, with the five holder counts.
\<close>

theorem more_than_five_tokens_truncated:
  assumes "5 < length mints"
  shows "find_smart_money s mints mwr mpnl = find_smart_money s (take 5 mints) mwr mpnl
       \<and> fst (find_smart_money s mints mwr mpnl) \<noteq>
           ErrorResult ''Please provide at least 2 contract addresses.'' None
       \<and> (case fst (find_smart_money s mints mwr mpnl) of
            Report rep \<Rightarrow> mints_analyzed rep = take 5 mints \<and> common_of s mints \<noteq> []
          | ErrorResult msg counts \<Rightarrow>
              common_of s mints = []
              \<and> msg = ''No common wallets found across these tokens. Try tokens with more overlap.''
              \<and> counts = Some (map length (holder_lists_of s mints))
              \<and> length (holder_lists_of s mints) = 5)"
proof -
  from assms have two: "2 \<le> length mints" and two': "2 \<le> length (take 5 mints)"
    by simp_all
  show ?thesis
  proof (cases "common_of s mints = []")
    case True
    then have "common_of s (take 5 mints) = []"
      by (simp add: common_of_take)
    from find_smart_money_empty [OF two True, of mwr mpnl]
      find_smart_money_empty [OF two' this, of mwr mpnl] True assms
    show ?thesis
      by (simp add: analysed_mints_take holder_lists_of_def analysed_mints_def)
  next
    case False
    then have "common_of s (take 5 mints) \<noteq> []"
      by (simp add: common_of_take)
    from find_smart_money_report [OF two False, of mwr mpnl]
      find_smart_money_report [OF two' this, of mwr mpnl] False
    show ?thesis
      by (simp add: analysed_mints_take common_of_take qualified_entry_take analysed_mints_def)
  qed
qed

lemma example_six_mints:
  "fst (find_smart_money example_session [''T1'', ''T2'', ''T3'', ''T4'', ''T5'', ''T6''] (3 / 5) 10) =
   Report \<lparr>mints_analyzed = [''T1'', ''T2'', ''T3'', ''T4'', ''T5''],
           total_common_wallets = 3,
           qualified_wallets =
             [pnl_report.extend report_C
                (qualified_wallet.fields wallet_C [''T1'', ''T2'', ''T3'', ''T4'', ''T5''])],
           min_win_rate = 3 / 5, min_pnl_sol = 10\<rparr>"
  by code_simp

theorem more_than_five_tokens_truncated_witness:
  "5 < length [''T1'', ''T2'', ''T3'', ''T4'', ''T5'', ''T6'']
   \<and> find_smart_money example_session [''T1'', ''T2'', ''T3'', ''T4'', ''T5'', ''T6''] (3 / 5) 10 =
     find_smart_money example_session (take 5 [''T1'', ''T2'', ''T3'', ''T4'', ''T5'', ''T6'']) (3 / 5) 10
   \<and> fst (find_smart_money example_session [''T1'', ''T2'', ''T3'', ''T4'', ''T5'', ''T6''] (3 / 5) 10) =
       Report \<lparr>mints_analyzed = [''T1'', ''T2'', ''T3'', ''T4'', ''T5''],
           total_common_wallets = 3,
           qualified_wallets =
             [pnl_report.extend report_C
                (qualified_wallet.fields wallet_C [''T1'', ''T2'', ''T3'', ''T4'', ''T5''])],
           min_win_rate = 3 / 5, min_pnl_sol = 10\<rparr>"
proof -
  have h: "5 < length [''T1'', ''T2'', ''T3'', ''T4'', ''T5'', ''T6'']" by simp
  from h example_six_mints more_than_five_tokens_truncated [OF h, of example_session "3 / 5" 10]
  show ?thesis by blast
qed

text \<open>
  Claim C10 as stated fails: when no request for holders succeeds, six mints are answered
  with an error result, which has no \<^verbatim>\<open>mints_analyzed\<close>.
\<close>

theorem more_than_five_tokens_counterexample:
  "fst (find_smart_money silent_session [''T1'', ''T2'', ''T3'', ''T4'', ''T5'', ''T6''] (3 / 5) 10) =
   ErrorResult ''No common wallets found across these tokens. Try tokens with more overlap.''
     (Some [0, 0, 0, 0, 0])"
  by code_simp

end
